theory Spec2Isabelle
  imports Complex_Main
begin

section \<open>Conversion worker and batch front end of \<open>ffpe.py\<close>\<close>

text \<open>
  The theory embeds the conversion part of \<^verbatim>\<open>MediaSwift/ffpe.py\<close>: the command line
  built by \<^verbatim>\<open>convert_single\<close>, the duration probe \<^verbatim>\<open>get_duration\<close>, the progress
  loop over the output of the external process, and the validation and thread start-up
  of \<^verbatim>\<open>convert\<close>.

  Conventions of the embedding.
  \<^item> A Python \<^verbatim>\<open>str\<close> is a \<open>string\<close>; a \<open>char\<close> stands for a code point below 256
    (the multiplication sign U+00D7 is \<open>CHR 0xD7\<close>).
  \<^item> A Python \<^verbatim>\<open>float\<close> is a \<open>pyfloat\<close>: a double, held as the rational number it stands
    for, an infinity or NaN. \<^verbatim>\<open>float()\<close> and every operation on floats round their exact
    result to the nearest double, as IEEE 754 does, and overflow to an infinity. The
    sign of a zero is not kept: no operation of the worker tells the two zeros apart.
  \<^item> An exception is a value of \<open>error\<close>, returned as \<open>Inl\<close>.
  \<^item> What the operating system, the file system and the two external programs decide is
    read from a record \<open>env\<close>.
\<close>

subsection \<open>Characters and text\<close>

definition is_digit :: "char \<Rightarrow> bool" where
  "is_digit c = (c \<in> set ''0123456789'')"

definition digit_val :: "char \<Rightarrow> nat" where
  "digit_val c = of_char c - 48"

definition nat_of_digits :: "string \<Rightarrow> nat" where
  "nat_of_digits ds = foldl (\<lambda>a c. 10 * a + digit_val c) 0 ds"

text \<open>The white space that \<^verbatim>\<open>str.strip()\<close> removes, below code point 256.\<close>

definition is_space :: "char \<Rightarrow> bool" where
  "is_space c = (c \<in> set [CHR 0x09, CHR 0x0A, CHR 0x0B, CHR 0x0C, CHR 0x0D,
                            CHR 0x1C, CHR 0x1D, CHR 0x1E, CHR 0x1F, CHR 0x20,
                            CHR 0x85, CHR 0xA0])"

definition strip :: "string \<Rightarrow> string" where
  "strip t = rev (dropWhile is_space (rev (dropWhile is_space t)))"

text \<open>
  The white space that \<^verbatim>\<open>float()\<close> removes at both ends of its argument: the four
  separators 0x1C to 0x1F are not part of it.
\<close>

definition is_float_space :: "char \<Rightarrow> bool" where
  "is_float_space c = (c \<in> set [CHR 0x09, CHR 0x0A, CHR 0x0B, CHR 0x0C, CHR 0x0D,
                                  CHR 0x20, CHR 0x85, CHR 0xA0])"

definition float_strip :: "string \<Rightarrow> string" where
  "float_strip t = rev (dropWhile is_float_space (rev (dropWhile is_float_space t)))"

text \<open>
  The lower case of an ASCII letter, as CPython's \<^verbatim>\<open>Py_TOLOWER\<close> gives it when
  \<^verbatim>\<open>float()\<close> compares its argument with \<^verbatim>\<open>inf\<close>, \<^verbatim>\<open>infinity\<close> and \<^verbatim>\<open>nan\<close>.
\<close>

definition lower :: "char \<Rightarrow> char" where
  "lower c =
     (case map_of (zip ''ABCDEFGHIJKLMNOPQRSTUVWXYZ'' ''abcdefghijklmnopqrstuvwxyz'') c of
        Some d \<Rightarrow> d
      | None \<Rightarrow> c)"

text \<open>\<^verbatim>\<open>time_str.split(":")\<close>: the pieces between the colons, at least one piece.\<close>

fun split_colon :: "string \<Rightarrow> string list" where
  "split_colon [] = [[]]"
| "split_colon (c # cs) =
     (if c = CHR '':'' then [] # split_colon cs
      else (case split_colon cs of
              p # ps \<Rightarrow> (c # p) # ps
            | [] \<Rightarrow> [[c]]))"

subsection \<open>Exceptions\<close>

datatype error =
    CalledProcessError int
  | OSError
  | UnicodeDecodeError
  | ValueError
  | ZeroDivisionError
  | OverflowError
  | AttributeError

subsection \<open>Floats\<close>

datatype pyfloat = Fin rat | Infinite bool | NaN

text \<open>
  A finite float is a double, held as the rational number it stands for. Python's
  floats are the doubles of IEEE 754 (binary64): \<^verbatim>\<open>float()\<close> and each arithmetic
  operation return their exact result rounded to the nearest double, a tie going to the
  double with the even significand. \<open>round_double\<close> is that rounding: 53 bits of
  significand, no exponent below -1022 (the doubles under \<open>2 powi - 1022\<close> are spaced
  \<open>2 powi - 1074\<close> apart), and an infinity once the rounded magnitude reaches
  \<open>2 powi 1024\<close>.
\<close>

text \<open>The number of bits of a natural number, as \<^verbatim>\<open>int.bit_length\<close> gives it.\<close>

fun bit_length :: "nat \<Rightarrow> nat" where
  "bit_length n = (if n = 0 then 0 else Suc (bit_length (n div 2)))"

declare bit_length.simps [simp del]

text \<open>
  The binary exponent of a positive rational \<open>a\<close>: the \<open>e\<close> with
  \<open>2 powi e \<le> a < 2 powi (e + 1)\<close>. It is the difference of the bit lengths of the
  numerator and the denominator, or one less.
\<close>

definition exponent :: "rat \<Rightarrow> int" where
  "exponent a =
     (case quotient_of a of
        (p, q) \<Rightarrow>
          let k = int (bit_length (nat p)) - int (bit_length (nat q))
          in if 2 powi k \<le> a then k else k - 1)"

text \<open>The nearest integer, a tie going to the even one.\<close>

definition round_half_even :: "rat \<Rightarrow> int" where
  "round_half_even r =
     (let f = \<lfloor>r\<rfloor>; d = r - of_int f
      in if d < 1 / 2 then f
         else if 1 / 2 < d then f + 1
         else if even f then f else f + 1)"

text \<open>The distance between the doubles around a positive \<open>a\<close>.\<close>

definition quantum :: "rat \<Rightarrow> rat" where
  "quantum a = 2 powi (max (exponent a) (- 1022) - 52)"

text \<open>A magnitude rounded to a multiple of its quantum.\<close>

definition round_pos :: "rat \<Rightarrow> rat" where
  "round_pos a = of_int (round_half_even (a / quantum a)) * quantum a"

definition round_double :: "rat \<Rightarrow> pyfloat" where
  "round_double x =
     (if x = 0 then Fin 0
      else let y = round_pos \<bar>x\<bar>
           in if 2 powi 1024 \<le> y then Infinite (0 < x)
              else Fin (if 0 < x then y else - y))"

text \<open>
  \<^verbatim>\<open>float(text)\<close> on a string, after CPython's \<^verbatim>\<open>PyFloat_FromString\<close>: an underscore
  must stand between two digits and is dropped; white space at both ends is dropped;
  what is left is an optional sign followed by \<^verbatim>\<open>inf\<close>, \<^verbatim>\<open>infinity\<close> or \<^verbatim>\<open>nan\<close> in any
  case, or by a decimal number with at least one digit and an optional exponent.
  \<open>None\<close> is \<^verbatim>\<open>ValueError\<close>. \<open>float_literal\<close> is the number as it is written and
  \<open>py_float\<close> the double nearest to it, which is what \<^verbatim>\<open>float\<close> returns.
\<close>

fun underscores_ok :: "char \<Rightarrow> string \<Rightarrow> bool" where
  "underscores_ok prev [] = (prev \<noteq> CHR ''_'')"
| "underscores_ok prev (c # cs) =
     (if c = CHR ''_'' then is_digit prev \<and> underscores_ok c cs
      else if prev = CHR ''_'' then is_digit c \<and> underscores_ok c cs
      else underscores_ok c cs)"

definition split_sign :: "string \<Rightarrow> bool \<times> string" where
  "split_sign t =
     (case t of
        c # cs \<Rightarrow> if c = CHR ''-'' then (True, cs)
                  else if c = CHR ''+'' then (False, cs)
                  else (False, t)
      | [] \<Rightarrow> (False, t))"

definition pow10 :: "bool \<Rightarrow> nat \<Rightarrow> rat" where
  "pow10 neg k = (if neg then 1 / 10 ^ k else 10 ^ k)"

definition parse_exponent :: "string \<Rightarrow> rat option" where
  "parse_exponent t =
     (case t of
        [] \<Rightarrow> Some 1
      | c # cs \<Rightarrow>
          if c = CHR ''e'' \<or> c = CHR ''E'' then
            (case split_sign cs of
               (neg, ds) \<Rightarrow>
                 if ds \<noteq> [] \<and> list_all is_digit ds
                 then Some (pow10 neg (nat_of_digits ds))
                 else None)
          else None)"

definition parse_decimal :: "string \<Rightarrow> rat option" where
  "parse_decimal t =
     (case split_sign t of
        (neg, r) \<Rightarrow>
          let ip = takeWhile is_digit r;
              r1 = dropWhile is_digit r;
              fp = (case r1 of
                      c # cs \<Rightarrow> if c = CHR ''.'' then takeWhile is_digit cs else []
                    | [] \<Rightarrow> []);
              r2 = (case r1 of
                      c # cs \<Rightarrow> if c = CHR ''.'' then dropWhile is_digit cs else r1
                    | [] \<Rightarrow> [])
          in if ip = [] \<and> fp = [] then None
             else (case parse_exponent r2 of
                     None \<Rightarrow> None
                   | Some ex \<Rightarrow>
                       let mant = of_nat (nat_of_digits ip)
                                  + of_nat (nat_of_digits fp) / 10 ^ length fp
                       in Some ((if neg then - mant else mant) * ex)))"

definition parse_inf_or_nan :: "string \<Rightarrow> pyfloat option" where
  "parse_inf_or_nan t =
     (case split_sign t of
        (neg, r) \<Rightarrow>
          let w = map lower r
          in if w = ''inf'' \<or> w = ''infinity'' then Some (Infinite (\<not> neg))
             else if w = ''nan'' then Some NaN
             else None)"

definition float_literal :: "string \<Rightarrow> pyfloat option" where
  "float_literal t =
     (if underscores_ok (CHR 0x00) t then
        (let u = float_strip (filter (\<lambda>c. c \<noteq> CHR ''_'') t)
         in case parse_decimal u of
              Some q \<Rightarrow> Some (Fin q)
            | None \<Rightarrow> parse_inf_or_nan u)
      else None)"

fun round_float :: "pyfloat \<Rightarrow> pyfloat" where
  "round_float (Fin q) = round_double q"
| "round_float (Infinite b) = Infinite b"
| "round_float NaN = NaN"

definition py_float :: "string \<Rightarrow> pyfloat option" where
  "py_float t = map_option round_float (float_literal t)"

text \<open>
  The float operations the worker uses: the exact result of two finite operands is
  rounded, and infinities and NaN follow IEEE's rules.
\<close>

fun fmul :: "pyfloat \<Rightarrow> pyfloat \<Rightarrow> pyfloat" where
  "fmul (Fin x) (Fin y) = round_double (x * y)"
| "fmul NaN _ = NaN"
| "fmul _ NaN = NaN"
| "fmul (Infinite a) (Infinite b) = Infinite (a = b)"
| "fmul (Infinite a) (Fin y) = (if y = 0 then NaN else Infinite (a = (0 < y)))"
| "fmul (Fin x) (Infinite b) = (if x = 0 then NaN else Infinite (b = (0 < x)))"

fun fadd :: "pyfloat \<Rightarrow> pyfloat \<Rightarrow> pyfloat" where
  "fadd (Fin x) (Fin y) = round_double (x + y)"
| "fadd NaN _ = NaN"
| "fadd _ NaN = NaN"
| "fadd (Infinite a) (Infinite b) = (if a = b then Infinite a else NaN)"
| "fadd (Infinite a) (Fin y) = Infinite a"
| "fadd (Fin x) (Infinite b) = Infinite b"

text \<open>Python's \<^verbatim>\<open>/\<close> on floats raises \<^verbatim>\<open>ZeroDivisionError\<close> when the divisor is zero.\<close>

fun fdiv :: "pyfloat \<Rightarrow> pyfloat \<Rightarrow> error + pyfloat" where
  "fdiv (Fin x) (Fin y) =
     (if y = 0 then Inl ZeroDivisionError else Inr (round_double (x / y)))"
| "fdiv NaN (Fin y) = (if y = 0 then Inl ZeroDivisionError else Inr NaN)"
| "fdiv (Infinite a) (Fin y) =
     (if y = 0 then Inl ZeroDivisionError else Inr (Infinite (a = (0 < y))))"
| "fdiv _ NaN = Inr NaN"
| "fdiv NaN (Infinite b) = Inr NaN"
| "fdiv (Infinite a) (Infinite b) = Inr NaN"
| "fdiv (Fin x) (Infinite b) = Inr (Fin 0)"

text \<open>\<^verbatim>\<open>min(x, 1.0)\<close>: Python returns \<^verbatim>\<open>x\<close> unless \<^verbatim>\<open>1.0 < x\<close>.\<close>

fun min_one :: "pyfloat \<Rightarrow> pyfloat" where
  "min_one (Fin x) = (if 1 < x then Fin 1 else Fin x)"
| "min_one (Infinite b) = (if b then Fin 1 else Infinite b)"
| "min_one NaN = NaN"

text \<open>\<^verbatim>\<open>int(np.ceil(x))\<close>: an infinity raises \<^verbatim>\<open>OverflowError\<close>, NaN \<^verbatim>\<open>ValueError\<close>.\<close>

fun ceil_int :: "pyfloat \<Rightarrow> error + int" where
  "ceil_int (Fin x) = Inr \<lceil>x\<rceil>"
| "ceil_int (Infinite b) = Inl OverflowError"
| "ceil_int NaN = Inl ValueError"

subsection \<open>The progress pattern\<close>

text \<open>
  \<^verbatim>\<open>re.search(r"time=(\d+:\d+:\d+.\d+)", line)\<close>. \<open>match_here\<close> is a match that starts
  at the head of the text and returns group 1. Each \<^verbatim>\<open>\d+\<close> is greedy. After the
  first two a colon must follow the whole run of digits. After the third run the dot of
  the pattern is unescaped and stands for any character but a newline: either the
  character after the run is taken and at least one digit follows it, or, when the run
  has three or more digits, the engine backtracks and the dot and the last \<^verbatim>\<open>\d+\<close> take
  the last digits of the run itself.
\<close>

definition match_seconds :: "string \<Rightarrow> string option" where
  "match_seconds t =
     (let sd = takeWhile is_digit t; r = dropWhile is_digit t
      in if sd = [] then None
         else (case r of
                 c # cs \<Rightarrow>
                   if c \<noteq> CHR 0x0A \<and> takeWhile is_digit cs \<noteq> []
                   then Some (sd @ c # takeWhile is_digit cs)
                   else if 3 \<le> length sd then Some sd else None
               | [] \<Rightarrow> if 3 \<le> length sd then Some sd else None))"

definition match_field :: "string \<Rightarrow> (string \<times> string) option" where
  "match_field t =
     (let ds = takeWhile is_digit t; r = dropWhile is_digit t
      in if ds = [] then None
         else (case r of
                 c # cs \<Rightarrow> if c = CHR '':'' then Some (ds, cs) else None
               | [] \<Rightarrow> None))"

fun strip_prefix :: "string \<Rightarrow> string \<Rightarrow> string option" where
  "strip_prefix [] t = Some t"
| "strip_prefix (p # ps) [] = None"
| "strip_prefix (p # ps) (c # cs) = (if p = c then strip_prefix ps cs else None)"

definition match_here :: "string \<Rightarrow> string option" where
  "match_here t =
     (case strip_prefix ''time='' t of
        None \<Rightarrow> None
      | Some r0 \<Rightarrow>
          (case match_field r0 of
             None \<Rightarrow> None
           | Some (h, r1) \<Rightarrow>
               (case match_field r1 of
                  None \<Rightarrow> None
                | Some (m, r2) \<Rightarrow>
                    (case match_seconds r2 of
                       None \<Rightarrow> None
                     | Some sec \<Rightarrow> Some (h @ '':'' @ m @ '':'' @ sec)))))"

text \<open>The search tries every start position from the left.\<close>

fun re_search :: "string \<Rightarrow> string option" where
  "re_search [] = match_here []"
| "re_search (c # cs) =
     (case match_here (c # cs) of
        Some g \<Rightarrow> Some g
      | None \<Rightarrow> re_search cs)"

text \<open>
  Lines 479 to 483 of \<^verbatim>\<open>convert_single\<close>: no match gives \<open>Inr None\<close> and the line is
  passed over; a match is split at the colons, each piece goes through \<^verbatim>\<open>float\<close>, and
  the three values are unpacked. A piece that is no float, or a number of pieces other
  than three, raises \<^verbatim>\<open>ValueError\<close>.
\<close>

definition parse_line :: "string \<Rightarrow> error + pyfloat option" where
  "parse_line line =
     (case re_search line of
        None \<Rightarrow> Inr None
      | Some time_str \<Rightarrow>
          (case map py_float (split_colon time_str) of
             [Some h, Some m, Some sec] \<Rightarrow>
               Inr (Some (fadd (fadd (fmul h (Fin 3600)) (fmul m (Fin 60))) sec))
           | _ \<Rightarrow> Inl ValueError))"

text \<open>
  Lines 484 to 487: \<^verbatim>\<open>progress = min(elapsed_time / duration, 1.0)\<close> and
  \<^verbatim>\<open>progress_percentage = int(np.ceil(progress * 100))\<close>.
\<close>

definition progress_percentage :: "pyfloat \<Rightarrow> pyfloat \<Rightarrow> error + int" where
  "progress_percentage elapsed_time duration =
     (case fdiv elapsed_time duration of
        Inl e \<Rightarrow> Inl e
      | Inr q \<Rightarrow> ceil_int (fmul (min_one q) (Fin 100)))"

subsection \<open>The command line\<close>

text \<open>
  The options of \<^verbatim>\<open>convert\<close> and \<^verbatim>\<open>convert_single\<close>, each \<^verbatim>\<open>None\<close> by default. The
  codec, size, accelerator, format and preset are strings. The sample rate, channels,
  bit rates and frame rate are annotated as integers and documented with strings such
  as \<^verbatim>\<open>'192k'\<close>; they go through \<^verbatim>\<open>str()\<close>.
\<close>

datatype pyval = PyInt int | PyStr string

record options =
  arg_cv :: "string option"
  arg_ca :: "string option"
  arg_s :: "string option"
  arg_hwaccel :: "string option"
  arg_ar :: "pyval option"
  arg_ac :: "pyval option"
  arg_ba :: "pyval option"
  arg_r :: "pyval option"
  arg_f :: "string option"
  arg_preset :: "string option"
  arg_bv :: "pyval option"

fun str_nat :: "nat \<Rightarrow> string" where
  "str_nat k = (if k < 10 then [char_of (48 + k)]
                else str_nat (k div 10) @ [char_of (48 + k mod 10)])"

declare str_nat.simps [simp del]

definition str_int :: "int \<Rightarrow> string" where
  "str_int i = (if i < 0 then CHR ''-'' # str_nat (nat (- i)) else str_nat (nat i))"

fun py_str :: "pyval \<Rightarrow> string" where
  "py_str (PyInt i) = str_int i"
| "py_str (PyStr t) = t"

text \<open>Truth values as an \<^verbatim>\<open>if\<close> reads them: \<^verbatim>\<open>None\<close>, \<^verbatim>\<open>0\<close> and \<^verbatim>\<open>""\<close> are false.\<close>

fun truthy :: "pyval \<Rightarrow> bool" where
  "truthy (PyInt i) = (i \<noteq> 0)"
| "truthy (PyStr t) = (t \<noteq> [])"

text \<open>\<^verbatim>\<open>if v: command += [flag, v]\<close> and \<^verbatim>\<open>if v: command += [flag, str(v)]\<close>.\<close>

definition add_text :: "string \<Rightarrow> string option \<Rightarrow> string list \<Rightarrow> string list" where
  "add_text flag v command =
     (case v of
        None \<Rightarrow> command
      | Some t \<Rightarrow> if t \<noteq> [] then command @ [flag, t] else command)"

definition add_value :: "string \<Rightarrow> pyval option \<Rightarrow> string list \<Rightarrow> string list" where
  "add_value flag v command =
     (case v of
        None \<Rightarrow> command
      | Some x \<Rightarrow> if truthy x then command @ [flag, py_str x] else command)"

text \<open>\<^verbatim>\<open>s.replace("\<times>", "x")\<close>, the multiplication sign being code point 0xD7.\<close>

definition replace_times :: "string \<Rightarrow> string" where
  "replace_times t = map (\<lambda>c. if c = CHR 0xD7 then CHR ''x'' else c) t"

text \<open>Lines 433 to 463 of \<^verbatim>\<open>convert_single\<close>, statement by statement.\<close>

definition build_command :: "string \<Rightarrow> string \<Rightarrow> string \<Rightarrow> options \<Rightarrow> string list" where
  "build_command ffpe_path input_file output_file opts =
     (let command = [ffpe_path, ''-hide_banner''];
          command = add_text ''-hwaccel'' (arg_hwaccel opts) command;
          command = command @ [''-i'', input_file];
          command = add_text ''-c:v'' (arg_cv opts) command;
          command = add_text ''-c:a'' (arg_ca opts) command;
          command = (case arg_s opts of
                       None \<Rightarrow> command
                     | Some t \<Rightarrow> if t \<noteq> [] then command @ [''-s'', replace_times t]
                                 else command);
          command = add_value ''-ar'' (arg_ar opts) command;
          command = add_value ''-ac'' (arg_ac opts) command;
          command = add_value ''-b:a'' (arg_ba opts) command;
          command = add_value ''-r'' (arg_r opts) command;
          command = add_text ''-f'' (arg_f opts) command;
          command = add_text ''-preset'' (arg_preset opts) command;
          command = add_value ''-b:v'' (arg_bv opts) command
      in if output_file \<noteq> [] then command @ [''-y'', output_file] else command)"

subsection \<open>The environment\<close>

text \<open>
  A started process: what iterating over its merged output yields (a line, or the
  exception the read raises) and the exit status it ends with.
\<close>

record process =
  stdout :: "(error + string) list"
  returncode :: int

text \<open>
  \<open>path_exists\<close>, \<open>basename\<close>, \<open>splitext\<close> and \<open>path_join\<close> are \<^verbatim>\<open>os.path\<close>.
  \<open>check_output\<close> is \<^verbatim>\<open>subprocess.check_output(command, shell=True).decode("utf-8")\<close>:
  the decoded output of the command, or the exception raised (\<^verbatim>\<open>CalledProcessError\<close>
  with the status when the command exits non-zero). \<open>popen\<close> is \<^verbatim>\<open>subprocess.Popen\<close>
  with the arguments of line 468: the process, or the exception of a failed launch.
\<close>

record env =
  path_exists :: "string \<Rightarrow> bool"
  basename :: "string \<Rightarrow> string"
  splitext :: "string \<Rightarrow> string \<times> string"
  path_join :: "string \<Rightarrow> string \<Rightarrow> string"
  check_output :: "string \<Rightarrow> error + string"
  popen :: "string list \<Rightarrow> error + process"

subsection \<open>The duration probe\<close>

definition probe_command :: "string \<Rightarrow> string" where
  "probe_command file_path =
     ''ffprobe -v error -show_entries format=duration -of default=noprint_wrappers=1:nokey=1 ''
     @ [CHR 0x22] @ file_path @ [CHR 0x22]"

definition get_duration :: "env \<Rightarrow> string \<Rightarrow> error + pyfloat" where
  "get_duration E file_path =
     (case check_output E (probe_command file_path) of
        Inl e \<Rightarrow> Inl e
      | Inr output \<Rightarrow>
          (case py_float (strip output) of
             None \<Rightarrow> Inl ValueError
           | Some d \<Rightarrow> Inr d))"

subsection \<open>The worker\<close>

text \<open>
  The progress bar is a \<^verbatim>\<open>tqdm\<close> object, which belongs to a library outside the
  repository. The worker reads its counter \<^verbatim>\<open>n\<close> and calls \<^verbatim>\<open>update(k)\<close>, which adds
  \<open>k\<close> to the counter (also when \<open>k\<close> is negative), and \<^verbatim>\<open>close()\<close>, which leaves the
  counter as it is.
\<close>

record tqdm =
  tqdm_n :: int
  tqdm_total :: int
  tqdm_closed :: bool

definition tqdm_update :: "int \<Rightarrow> tqdm \<Rightarrow> tqdm" where
  "tqdm_update k bar = bar\<lparr>tqdm_n := tqdm_n bar + k\<rparr>"

definition tqdm_close :: "tqdm \<Rightarrow> tqdm" where
  "tqdm_close bar = bar\<lparr>tqdm_closed := True\<rparr>"

text \<open>
  What a worker prints: the completion line of line 491, or one of the two handlers of
  lines 496 to 499.
\<close>

datatype message =
    Completed string
  | CommandFailed error
  | ErrorOccurred error

fun handler :: "error \<Rightarrow> message" where
  "handler (CalledProcessError status) = CommandFailed (CalledProcessError status)"
| "handler e = ErrorOccurred e"

text \<open>What a worker does to the outside, in order.\<close>

datatype event =
    CheckOutput string
  | Popen "string list"
  | Update int
  | Close
  | Print message

text \<open>
  The loop of lines 478 to 488 over the lines of the process. The result is the
  exception that ended the loop, if any, the progress bar at that moment, and the
  \<^verbatim>\<open>update\<close> calls made. The worker never reads the exit status of the process.
\<close>

fun read_lines ::
  "pyfloat \<Rightarrow> (error + string) list \<Rightarrow> tqdm option \<Rightarrow> error option \<times> tqdm option \<times> event list"
where
  "read_lines duration [] progress_bar = (None, progress_bar, [])"
| "read_lines duration (Inl e # rest) progress_bar = (Some e, progress_bar, [])"
| "read_lines duration (Inr line # rest) progress_bar =
     (case parse_line line of
        Inl e \<Rightarrow> (Some e, progress_bar, [])
      | Inr None \<Rightarrow> read_lines duration rest progress_bar
      | Inr (Some elapsed_time) \<Rightarrow>
          (case progress_percentage elapsed_time duration of
             Inl e \<Rightarrow> (Some e, progress_bar, [])
           | Inr pct \<Rightarrow>
               (case progress_bar of
                  None \<Rightarrow> (Some AttributeError, None, [])
                | Some bar \<Rightarrow>
                    (case read_lines duration rest
                            (Some (tqdm_update (pct - tqdm_n bar) bar)) of
                       (e, bar', evs) \<Rightarrow> (e, bar', Update (pct - tqdm_n bar) # evs)))))"

text \<open>
  Lines 433 to 499 of \<^verbatim>\<open>convert_single\<close>: the final progress bar and the events. The
  success branch is reached whenever the probe, the launch and the loop raise nothing.
\<close>

definition convert_single ::
  "env \<Rightarrow> string \<Rightarrow> string \<Rightarrow> string \<Rightarrow> options \<Rightarrow> tqdm option \<Rightarrow> tqdm option \<times> event list"
where
  "convert_single E ffpe_path input_file output_file opts progress_bar =
     (let command = build_command ffpe_path input_file output_file opts
      in case get_duration E input_file of
           Inl e \<Rightarrow>
             (progress_bar, [CheckOutput (probe_command input_file), Print (handler e)])
         | Inr duration \<Rightarrow>
             (case popen E command of
                Inl e \<Rightarrow>
                  (progress_bar,
                   [CheckOutput (probe_command input_file), Popen command,
                    Print (handler e)])
              | Inr proc \<Rightarrow>
                  (case read_lines duration (stdout proc) progress_bar of
                     (Some e, bar, evs) \<Rightarrow>
                       (bar,
                        [CheckOutput (probe_command input_file), Popen command]
                        @ evs @ [Print (handler e)])
                   | (None, None, evs) \<Rightarrow>
                       (None,
                        [CheckOutput (probe_command input_file), Popen command]
                        @ evs @ [Print (handler AttributeError)])
                   | (None, Some bar, evs) \<Rightarrow>
                       (Some (tqdm_close bar),
                        [CheckOutput (probe_command input_file), Popen command]
                        @ evs @ [Close, Print (Completed (basename E input_file))]))))"

text \<open>Observations on the events of one worker.\<close>

fun is_popen :: "event \<Rightarrow> bool" where
  "is_popen (Popen command) = True"
| "is_popen _ = False"

fun is_check_output :: "event \<Rightarrow> bool" where
  "is_check_output (CheckOutput command) = True"
| "is_check_output _ = False"

fun is_completed :: "event \<Rightarrow> bool" where
  "is_completed (Print (Completed name)) = True"
| "is_completed _ = False"

text \<open>The counter of the progress bar after each \<^verbatim>\<open>update\<close>, from the counter before.\<close>

fun reported :: "int \<Rightarrow> event list \<Rightarrow> int list" where
  "reported k [] = []"
| "reported k (Update d # evs) = (k + d) # reported (k + d) evs"
| "reported k (ev # evs) = reported k evs"

subsection \<open>The batch\<close>

text \<open>
  \<^verbatim>\<open>input_files\<close> is \<^verbatim>\<open>None\<close>, a list of paths, or a single path that line 272 wraps
  into a list.
\<close>

datatype files_arg = NoFiles | OneFile string | FileList "string list"

fun files_truthy :: "files_arg \<Rightarrow> bool" where
  "files_truthy NoFiles = False"
| "files_truthy (OneFile t) = (t \<noteq> [])"
| "files_truthy (FileList fs) = (fs \<noteq> [])"

fun files_of :: "files_arg \<Rightarrow> string list" where
  "files_of NoFiles = []"
| "files_of (OneFile t) = [t]"
| "files_of (FileList fs) = fs"

text \<open>The errors that \<^verbatim>\<open>convert\<close> logs before it returns early.\<close>

datatype log_error = NoInputFiles | NoOutputDir | InvalidInputPath string

text \<open>A value formatted into an f-string: \<^verbatim>\<open>None\<close> prints as the text \<^verbatim>\<open>None\<close>.\<close>

fun py_format :: "string option \<Rightarrow> string" where
  "py_format None = ''None''"
| "py_format (Some t) = t"

text \<open>Lines 295 to 298: the output path of one input file.\<close>

definition output_path :: "env \<Rightarrow> string \<Rightarrow> string \<Rightarrow> string option \<Rightarrow> string" where
  "output_path E output_dir input_file f =
     (let filename = basename E input_file
      in path_join E output_dir (fst (splitext E filename) @ ''.'' @ py_format f))"

text \<open>
  A started thread: its number in the batch, the paths it was given and its own
  progress bar (\<^verbatim>\<open>tqdm(total=100)\<close>, counter at zero). The options are those of the
  batch.
\<close>

record thread =
  th_index :: nat
  th_input_file :: string
  th_output_file :: string
  th_progress_bar :: tqdm

definition new_bar :: tqdm where
  "new_bar = \<lparr>tqdm_n = 0, tqdm_total = 100, tqdm_closed = False\<rparr>"

text \<open>
  What a call of \<^verbatim>\<open>convert\<close> leaves: the errors logged, the threads started in order,
  the threads joined in order, and the value handed back to the caller. Every path of
  the function ends in a bare \<^verbatim>\<open>return\<close> or at the end of the body, so the value is
  Python's \<^verbatim>\<open>None\<close>, here \<open>None\<close>.
\<close>

record batch =
  logged :: "log_error list"
  threads :: "thread list"
  joined :: "nat list"
  returned :: "message list option"

definition rejected :: "log_error \<Rightarrow> batch" where
  "rejected e = \<lparr>logged = [e], threads = [], joined = [], returned = None\<rparr>"

definition start_thread :: "env \<Rightarrow> string \<Rightarrow> options \<Rightarrow> nat \<times> string \<Rightarrow> thread" where
  "start_thread E output_dir opts p =
     \<lparr>th_index = fst p,
      th_input_file = snd p,
      th_output_file = output_path E output_dir (snd p) (arg_f opts),
      th_progress_bar = new_bar\<rparr>"

text \<open>Lines 263 to 335 of \<^verbatim>\<open>convert\<close>.\<close>

definition convert :: "env \<Rightarrow> files_arg \<Rightarrow> string option \<Rightarrow> options \<Rightarrow> batch" where
  "convert E input_files output_dir opts =
     (if \<not> files_truthy input_files then rejected NoInputFiles
      else case output_dir of
             None \<Rightarrow> rejected NoOutputDir
           | Some dir \<Rightarrow>
               if dir = [] then rejected NoOutputDir
               else (case find (\<lambda>input_file. \<not> path_exists E input_file)
                               (files_of input_files) of
                       Some missing \<Rightarrow> rejected (InvalidInputPath missing)
                     | None \<Rightarrow>
                         (let ths = map (start_thread E dir opts)
                                        (enumerate 1 (files_of input_files))
                          in \<lparr>logged = [], threads = ths, joined = map th_index ths,
                              returned = None\<rparr>)))"

text \<open>
  What the started threads do. Each runs \<^verbatim>\<open>convert_single\<close> on its own arguments and
  its own progress bar, and no worker reads what another one writes, so the list of the
  workers' results in the order of the threads does not depend on how they interleave.
\<close>

definition run_thread :: "env \<Rightarrow> string \<Rightarrow> options \<Rightarrow> thread \<Rightarrow> tqdm option \<times> event list" where
  "run_thread E ffpe_path opts th =
     convert_single E ffpe_path (th_input_file th) (th_output_file th) opts
       (Some (th_progress_bar th))"

definition workers ::
  "env \<Rightarrow> string \<Rightarrow> files_arg \<Rightarrow> string option \<Rightarrow> options \<Rightarrow> (tqdm option \<times> event list) list"
where
  "workers E ffpe_path input_files output_dir opts =
     map (run_thread E ffpe_path opts) (threads (convert E input_files output_dir opts))"

subsection \<open>Observations used in the statements\<close>

text \<open>
  The percentage of each line of the output taken alone, in order, up to the first line
  whose read, whose parse or whose percentage raises: what lines 479 to 487 compute
  from the line and the duration, whatever the progress bar held before.
\<close>

fun line_percents :: "pyfloat \<Rightarrow> (error + string) list \<Rightarrow> int list" where
  "line_percents duration [] = []"
| "line_percents duration (Inl e # rest) = []"
| "line_percents duration (Inr line # rest) =
     (case parse_line line of
        Inl e \<Rightarrow> []
      | Inr None \<Rightarrow> line_percents duration rest
      | Inr (Some elapsed_time) \<Rightarrow>
          (case progress_percentage elapsed_time duration of
             Inl e \<Rightarrow> []
           | Inr pct \<Rightarrow> pct # line_percents duration rest))"

text \<open>A float that is zero or above, an infinity included.\<close>

fun not_negative :: "pyfloat \<Rightarrow> bool" where
  "not_negative (Fin x) = (0 \<le> x)"
| "not_negative (Infinite b) = b"
| "not_negative NaN = False"

text \<open>
  What one option adds to the command line: nothing, or its flag followed by its value.
\<close>

definition text_pair :: "string \<Rightarrow> string option \<Rightarrow> string list" where
  "text_pair flag v =
     (case v of None \<Rightarrow> [] | Some t \<Rightarrow> if t = [] then [] else [flag, t])"

definition value_pair :: "string \<Rightarrow> pyval option \<Rightarrow> string list" where
  "value_pair flag v =
     (case v of None \<Rightarrow> [] | Some x \<Rightarrow> if truthy x then [flag, py_str x] else [])"

text \<open>No option given: every argument of \<^verbatim>\<open>convert\<close> at its default.\<close>

definition no_options :: options where
  "no_options =
     \<lparr>arg_cv = None, arg_ca = None, arg_s = None, arg_hwaccel = None, arg_ar = None,
      arg_ac = None, arg_ba = None, arg_r = None, arg_f = None, arg_preset = None,
      arg_bv = None\<rparr>"

subsection \<open>A POSIX environment for the worked examples\<close>

text \<open>\<^verbatim>\<open>posixpath.basename\<close>, \<^verbatim>\<open>posixpath.splitext\<close> and \<^verbatim>\<open>posixpath.join\<close> of two parts.\<close>

definition posix_basename :: "string \<Rightarrow> string" where
  "posix_basename p = rev (takeWhile (\<lambda>c. c \<noteq> CHR ''/'') (rev p))"

definition posix_splitext :: "string \<Rightarrow> string \<times> string" where
  "posix_splitext p =
     (let name = posix_basename p;
          ext = rev (takeWhile (\<lambda>c. c \<noteq> CHR ''.'') (rev name));
          stem = take (length name - length ext - 1) name
      in if CHR ''.'' \<in> set name \<and> \<not> list_all (\<lambda>c. c = CHR ''.'') stem
         then (take (length p - length ext - 1) p, CHR ''.'' # ext)
         else (p, []))"

definition posix_join :: "string \<Rightarrow> string \<Rightarrow> string" where
  "posix_join a b =
     (case b of
        [] \<Rightarrow> if a = [] \<or> last a = CHR ''/'' then a else a @ ''/''
      | c # cs \<Rightarrow>
          if c = CHR ''/'' then b
          else if a = [] \<or> last a = CHR ''/'' then a @ b
          else a @ ''/'' @ b)"

text \<open>
  The example: three input files exist; the probe prints 100 seconds for \<^verbatim>\<open>a.mp4\<close>,
  \<^verbatim>\<open>N/A\<close> for \<^verbatim>\<open>b.mp4\<close> and exits with status 1 for any other file; every launched
  process prints three progress lines whose times go 10, 5, 20 seconds and exits with
  status 1.
\<close>

definition demo_lines :: "(error + string) list" where
  "demo_lines =
     [Inr ''frame=240 time=00:00:10.00\<newline>'',
      Inr ''frame=120 time=00:00:05.00\<newline>'',
      Inr ''frame=480 time=00:00:20.00\<newline>'']"

definition demo_env :: env where
  "demo_env =
     \<lparr>path_exists = (\<lambda>p. p \<in> set [''in/a.mp4'', ''in/b.mp4'', ''in/c.mp4'']),
      basename = posix_basename,
      splitext = posix_splitext,
      path_join = posix_join,
      check_output =
        (\<lambda>command.
           if command = probe_command ''in/a.mp4'' then Inr ''100.000000\<newline>''
           else if command = probe_command ''in/b.mp4'' then Inr ''N/A\<newline>''
           else Inl (CalledProcessError 1)),
      popen = (\<lambda>command. Inr \<lparr>stdout = demo_lines, returncode = 1\<rparr>)\<rparr>"

section \<open>Properties\<close>

subsection \<open>Shared lemmas\<close>

lemma add_text_append: "add_text flag v command = command @ text_pair flag v"
  by (simp add: add_text_def text_pair_def split: option.splits)

lemma add_value_append: "add_value flag v command = command @ value_pair flag v"
  by (simp add: add_value_def value_pair_def split: option.splits)

lemma replace_times_empty: "(replace_times t = []) = (t = [])"
  by (simp add: replace_times_def)

lemma build_command_concat:
  "build_command ffpe_path input_file output_file opts =
     [ffpe_path, ''-hide_banner'']
     @ text_pair ''-hwaccel'' (arg_hwaccel opts)
     @ [''-i'', input_file]
     @ text_pair ''-c:v'' (arg_cv opts)
     @ text_pair ''-c:a'' (arg_ca opts)
     @ text_pair ''-s'' (map_option replace_times (arg_s opts))
     @ value_pair ''-ar'' (arg_ar opts)
     @ value_pair ''-ac'' (arg_ac opts)
     @ value_pair ''-b:a'' (arg_ba opts)
     @ value_pair ''-r'' (arg_r opts)
     @ text_pair ''-f'' (arg_f opts)
     @ text_pair ''-preset'' (arg_preset opts)
     @ value_pair ''-b:v'' (arg_bv opts)
     @ (if output_file = [] then [] else [''-y'', output_file])"
proof -
  have s: "(case arg_s opts of
              None \<Rightarrow> c
            | Some t \<Rightarrow> if t \<noteq> [] then c @ [''-s'', replace_times t] else c)
           = c @ text_pair ''-s'' (map_option replace_times (arg_s opts))" for c
    by (simp add: text_pair_def replace_times_empty split: option.splits)
  show ?thesis
    unfolding build_command_def Let_def add_text_append add_value_append s
    by simp
qed

lemma text_pair_empty: "text_pair flag (Some []) = text_pair flag None"
  by (simp add: text_pair_def)

lemma value_pair_falsy: "\<not> truthy v \<Longrightarrow> value_pair flag (Some v) = value_pair flag None"
  by (simp add: value_pair_def)

lemma get_duration_failure:
  "get_duration E file_path = Inl e \<longleftrightarrow>
     check_output E (probe_command file_path) = Inl e
     \<or> (\<exists>output. check_output E (probe_command file_path) = Inr output
           \<and> py_float (strip output) = None \<and> e = ValueError)"
  by (auto simp: get_duration_def split: sum.splits option.splits)

lemma rejected_fields:
  "threads (rejected e) = []" "joined (rejected e) = []" "returned (rejected e) = None"
  "logged (rejected e) = [e]"
  by (simp_all add: rejected_def)

lemma files_truthy_iff: "files_truthy a \<Longrightarrow> files_of a \<noteq> []"
  by (cases a) simp_all

subsection \<open>Rounding to a double\<close>

lemma bit_length_bounds:
  "0 < n \<Longrightarrow> 2 ^ (bit_length n - 1) \<le> n \<and> n < 2 ^ bit_length n"
proof (induction n rule: bit_length.induct)
  case (1 n)
  show ?case
  proof (cases "n div 2 = 0")
    case True
    with 1(2) have n: "n = 1" by (simp add: div_eq_0_iff)
    have "bit_length (Suc 0) = Suc 0"
      by (subst bit_length.simps, subst bit_length.simps) simp
    with n show ?thesis by simp
  next
    case False
    then have pos: "0 < n div 2" by simp
    from 1(2) have n0: "n \<noteq> 0" by simp
    from 1(1) [OF n0 pos]
    have IH: "2 ^ (bit_length (n div 2) - 1) \<le> n div 2" "n div 2 < 2 ^ bit_length (n div 2)"
      by simp_all
    have b: "bit_length n = Suc (bit_length (n div 2))"
      using n0 by (subst bit_length.simps) simp
    have "bit_length (n div 2) \<noteq> 0"
      using pos by (subst bit_length.simps) simp
    then obtain c where c: "bit_length (n div 2) = Suc c"
      by (cases "bit_length (n div 2)") simp_all
    from IH c have "2 ^ c \<le> n div 2" "n div 2 < 2 * 2 ^ c" by simp_all
    then have "2 * 2 ^ c \<le> n" "n < 2 * (2 * 2 ^ c)" by linarith+
    with b c show ?thesis by simp
  qed
qed

lemma powi_less_imp_less: "(2::rat) powi m < 2 powi n \<Longrightarrow> m < n"
proof (rule ccontr)
  assume a: "(2::rat) powi m < 2 powi n" and "\<not> m < n"
  then have "n \<le> m" by simp
  then have "(2::rat) powi n \<le> 2 powi m" by (rule power_int_increasing) simp
  with a show False by simp
qed

lemma exponent_bounds:
  assumes "0 < a"
  shows "2 powi exponent a \<le> a" and "a < 2 powi (exponent a + 1)"
proof -
  obtain p q where pq: "quotient_of a = (p, q)" by (cases "quotient_of a")
  from pq have q: "0 < q" by (rule quotient_of_denom_pos)
  from pq have a: "a = of_int p / of_int q" by (rule quotient_of_div)
  from assms q a have p: "0 < p" by (simp add: zero_less_divide_iff)
  define bp where "bp = bit_length (nat p)"
  define bq where "bq = bit_length (nat q)"
  define k where "k = int bp - int bq"
  from bit_length_bounds [of "nat p"] p
  have P: "2 ^ (bp - 1) \<le> nat p" "nat p < 2 ^ bp" by (simp_all add: bp_def)
  from bit_length_bounds [of "nat q"] q
  have Q: "2 ^ (bq - 1) \<le> nat q" "nat q < 2 ^ bq" by (simp_all add: bq_def)
  from Q(2) q have bq0: "0 < bq" by (cases bq) simp_all
  have "rat_of_nat (2 ^ (bp - 1)) \<le> of_nat (nat p)" using P(1) by (simp only: of_nat_le_iff)
  then have P1: "(2::rat) ^ (bp - 1) \<le> of_int p" using p by simp
  have "rat_of_nat (nat p) < of_nat (2 ^ bp)" using P(2) by (simp only: of_nat_less_iff)
  then have P2: "of_int p < (2::rat) ^ bp" using p by simp
  have "rat_of_nat (2 ^ (bq - 1)) \<le> of_nat (nat q)" using Q(1) by (simp only: of_nat_le_iff)
  then have Q1: "(2::rat) ^ (bq - 1) \<le> of_int q" using q by simp
  have "rat_of_nat (nat q) < of_nat (2 ^ bq)" using Q(2) by (simp only: of_nat_less_iff)
  then have Q2: "of_int q < (2::rat) ^ bq" using q by simp
  have up: "a < 2 powi (k + 1)"
  proof -
    have "of_int p / of_int q < (2::rat) ^ bp / 2 ^ (bq - 1)"
      using p P2 Q1 by (intro frac_less) simp_all
    also have "(2::rat) ^ bp / 2 ^ (bq - 1) = 2 powi (int bp - int (bq - 1))"
      by (simp add: power_int_diff)
    also have "int bp - int (bq - 1) = k + 1" using bq0 by (simp add: k_def)
    finally show ?thesis by (simp add: a)
  qed
  have lo: "2 powi (k - 1) < a"
  proof -
    have "(2::rat) ^ (bp - 1) / 2 ^ bq < of_int p / of_int q"
      using q P1 Q2 by (intro frac_less2) simp_all
    moreover have "(2::rat) ^ (bp - 1) / 2 ^ bq = 2 powi (int (bp - 1) - int bq)"
      by (simp add: power_int_diff)
    moreover have "int (bp - 1) - int bq = k - 1"
    proof -
      from P(2) p have "0 < bp" by (cases bp) simp_all
      then show ?thesis by (simp add: k_def)
    qed
    ultimately show ?thesis by (simp add: a)
  qed
  have e: "exponent a = (if 2 powi k \<le> a then k else k - 1)"
    by (simp add: exponent_def pq Let_def k_def bp_def bq_def)
  show "2 powi exponent a \<le> a" using lo by (simp add: e)
  show "a < 2 powi (exponent a + 1)" using up by (simp add: e)
qed

lemma exponent_unique:
  assumes "2 powi e \<le> a" "a < 2 powi (e + 1)"
  shows "exponent a = e"
proof -
  have "(0::rat) < 2 powi e" by (simp add: zero_less_power_int)
  from this assms(1) have a: "0 < a" by (rule less_le_trans)
  from exponent_bounds [OF a] assms
  have h: "(2::rat) powi e < 2 powi (exponent a + 1)" "(2::rat) powi exponent a < 2 powi (e + 1)"
    by simp_all
  from h(1) have "e < exponent a + 1" by (rule powi_less_imp_less)
  moreover from h(2) have "exponent a < e + 1" by (rule powi_less_imp_less)
  ultimately show ?thesis by simp
qed

lemma exponent_mono:
  assumes "0 < a" "a \<le> b"
  shows "exponent a \<le> exponent b"
proof -
  from assms have b: "0 < b" by simp
  from exponent_bounds(1) [OF assms(1)] assms(2) exponent_bounds(2) [OF b]
  have "(2::rat) powi exponent a < 2 powi (exponent b + 1)" by simp
  then have "exponent a < exponent b + 1" by (rule powi_less_imp_less)
  then show ?thesis by simp
qed

lemma round_half_even_of_int: "round_half_even (of_int k) = k"
  by (simp add: round_half_even_def)

lemma round_half_even_bounds: "\<lfloor>r\<rfloor> \<le> round_half_even r" "round_half_even r \<le> \<lfloor>r\<rfloor> + 1"
  by (simp_all add: round_half_even_def Let_def)

lemma round_half_even_mono:
  assumes "r \<le> s"
  shows "round_half_even r \<le> round_half_even s"
proof (cases "\<lfloor>r\<rfloor> = \<lfloor>s\<rfloor>")
  case True
  with assms have "r - of_int \<lfloor>r\<rfloor> \<le> s - of_int \<lfloor>s\<rfloor>" by simp
  with True show ?thesis by (auto simp: round_half_even_def Let_def)
next
  case False
  with assms have "\<lfloor>r\<rfloor> < \<lfloor>s\<rfloor>" using floor_mono [of r s] by simp
  with round_half_even_bounds(2) [of r] round_half_even_bounds(1) [of s]
  show ?thesis by simp
qed

lemma quantum_pos: "0 < quantum a"
  by (simp add: quantum_def zero_less_power_int)

lemma round_pos_le:
  assumes "a \<le> of_int N * quantum a"
  shows "round_pos a \<le> of_int N * quantum a"
proof -
  from assms have "a / quantum a \<le> of_int N"
    using quantum_pos [of a] by (simp add: pos_divide_le_eq)
  then have "round_half_even (a / quantum a) \<le> N"
    using round_half_even_mono [of "a / quantum a" "of_int N"]
    by (simp add: round_half_even_of_int)
  then have "rat_of_int (round_half_even (a / quantum a)) \<le> of_int N" by simp
  then show ?thesis
    unfolding round_pos_def using quantum_pos [of a] by (simp only: mult_le_cancel_right_pos)
qed

lemma round_pos_ge:
  assumes "of_int N * quantum a \<le> a"
  shows "of_int N * quantum a \<le> round_pos a"
proof -
  from assms have "of_int N \<le> a / quantum a"
    using quantum_pos [of a] by (simp add: pos_le_divide_eq)
  then have "N \<le> round_half_even (a / quantum a)"
    using round_half_even_mono [of "of_int N" "a / quantum a"]
    by (simp add: round_half_even_of_int)
  then have "rat_of_int N \<le> of_int (round_half_even (a / quantum a))" by simp
  then show ?thesis
    unfolding round_pos_def using quantum_pos [of a] by (simp only: mult_le_cancel_right_pos)
qed

lemma round_pos_zero: "round_pos 0 = 0"
  using round_half_even_of_int [of 0] by (simp add: round_pos_def)

lemma round_pos_nonneg: "0 \<le> a \<Longrightarrow> 0 \<le> round_pos a"
  using round_pos_ge [of 0 a] by simp

lemma round_pos_eval:
  assumes "2 powi e \<le> a" "a < 2 powi (e + 1)" "- 1022 \<le> e"
  shows "round_pos a = of_int (round_half_even (a * 2 powi (52 - e))) * 2 powi (e - 52)"
proof -
  from assms(3) have q: "quantum a = 2 powi (e - 52)"
    by (simp add: quantum_def exponent_unique [OF assms(1,2)] max_def)
  have "a / 2 powi (e - 52) = a * 2 powi (52 - e)"
    by (simp add: power_int_diff)
  with q show ?thesis by (simp add: round_pos_def)
qed

text \<open>
  A rounded magnitude stays within the powers of two around it: they are multiples of
  the quantum.
\<close>

lemma round_pos_bounds:
  assumes "0 < a"
  shows "2 powi max (exponent a) (- 1022) \<le> round_pos a \<or> exponent a < - 1022"
    and "round_pos a \<le> 2 powi (max (exponent a) (- 1022) + 1)"
proof -
  define E where "E = max (exponent a) (- 1022)"
  have q: "quantum a = 2 powi (E - 52)" by (simp add: quantum_def E_def)
  have hi: "(2::rat) powi (E + 1) = of_int (2 ^ 53) * quantum a"
    unfolding q by (simp add: power_int_diff power_int_add)
  have lo: "(2::rat) powi E = of_int (2 ^ 52) * quantum a"
    unfolding q by (simp add: power_int_diff)
  from exponent_bounds(2) [OF assms] have "a < 2 powi (exponent a + 1)" .
  also have "(2::rat) powi (exponent a + 1) \<le> 2 powi (E + 1)"
    by (rule power_int_increasing) (simp_all add: E_def)
  finally have "a \<le> of_int (2 ^ 53) * quantum a" by (simp add: hi)
  then have "round_pos a \<le> of_int (2 ^ 53) * quantum a" by (rule round_pos_le)
  then show "round_pos a \<le> 2 powi (max (exponent a) (- 1022) + 1)"
    by (simp only: hi [unfolded E_def])
  show "2 powi max (exponent a) (- 1022) \<le> round_pos a \<or> exponent a < - 1022"
  proof (cases "exponent a < - 1022")
    case True
    then show ?thesis by simp
  next
    case False
    then have "E = exponent a" by (simp add: E_def max_def)
    with exponent_bounds(1) [OF assms] have "2 powi E \<le> a" by simp
    then have "of_int (2 ^ 52) * quantum a \<le> a" by (simp only: lo)
    then have "of_int (2 ^ 52) * quantum a \<le> round_pos a" by (rule round_pos_ge)
    then have "2 powi E \<le> round_pos a" by (simp only: lo)
    then show ?thesis by (simp add: E_def)
  qed
qed

text \<open>Rounding keeps the order.\<close>

lemma round_pos_mono:
  assumes "0 \<le> a" "a \<le> b"
  shows "round_pos a \<le> round_pos b"
proof (cases "a = 0")
  case True
  with assms round_pos_nonneg [of b] show ?thesis by (simp add: round_pos_zero)
next
  case False
  with assms have a: "0 < a" and b: "0 < b" by simp_all
  define Ea where "Ea = max (exponent a) (- 1022)"
  define Eb where "Eb = max (exponent b) (- 1022)"
  from exponent_mono [OF a assms(2)] have le: "Ea \<le> Eb" by (simp add: Ea_def Eb_def)
  show ?thesis
  proof (cases "Ea = Eb")
    case True
    then have q: "quantum a = quantum b" by (simp add: quantum_def Ea_def Eb_def)
    from assms(2) have "a / quantum b \<le> b / quantum b"
      using quantum_pos [of b] by (simp add: divide_right_mono)
    then have "round_half_even (a / quantum b) \<le> round_half_even (b / quantum b)"
      by (rule round_half_even_mono)
    then have "rat_of_int (round_half_even (a / quantum b))
                 \<le> of_int (round_half_even (b / quantum b))"
      by simp
    then show ?thesis
      unfolding round_pos_def q using quantum_pos [of b]
      by (simp only: mult_le_cancel_right_pos)
  next
    case False
    with le have lt: "Ea < Eb" by simp
    then have "\<not> exponent b < - 1022" unfolding Ea_def Eb_def by linarith
    with round_pos_bounds(1) [OF b] have "2 powi Eb \<le> round_pos b" by (simp add: Eb_def)
    moreover from round_pos_bounds(2) [OF a] have "round_pos a \<le> 2 powi (Ea + 1)"
      by (simp add: Ea_def)
    moreover have "(2::rat) powi (Ea + 1) \<le> 2 powi Eb"
      using lt by (intro power_int_increasing) simp_all
    ultimately show ?thesis by simp
  qed
qed

text \<open>A natural number below \<open>2 ^ 53\<close> is a double.\<close>

lemma round_pos_of_nat:
  assumes "n < 2 ^ 53"
  shows "round_pos (of_nat n) = of_nat n"
proof (cases "n = 0")
  case True
  then show ?thesis by (simp add: round_pos_zero)
next
  case False
  then have a: "(0::rat) < of_nat n" by simp
  define e where "e = exponent (of_nat n)"
  from exponent_bounds [OF a]
  have lo: "2 powi e \<le> rat_of_nat n" and hi: "rat_of_nat n < 2 powi (e + 1)"
    by (simp_all add: e_def)
  from assms have "rat_of_nat n < of_nat (2 ^ 53)" by (simp only: of_nat_less_iff)
  then have "rat_of_nat n < 2 powi 53" by simp
  with lo have "(2::rat) powi e < 2 powi 53" by simp
  then have e53: "e < 53" by (rule powi_less_imp_less)
  from False have "(1::rat) \<le> of_nat n" by (simp add: Suc_le_eq)
  with hi have "(2::rat) powi 0 < 2 powi (e + 1)" by simp
  then have e0: "0 \<le> e" using powi_less_imp_less [of 0 "e + 1"] by simp
  define j where "j = nat (52 - e)"
  from e0 e53 have j: "52 - e = int j" by (simp add: j_def)
  from e0 have q: "quantum (of_nat n) = 2 powi (e - 52)"
    by (simp add: quantum_def e_def [symmetric] max_def)
  have "e - 52 = - int j" using j by simp
  then have q': "quantum (of_nat n) = 1 / 2 ^ j"
    by (simp add: q power_int_minus inverse_eq_divide)
  have "rat_of_nat n / quantum (of_nat n) = of_int (int (n * 2 ^ j))"
    by (simp add: q')
  then have "round_half_even (rat_of_nat n / quantum (of_nat n)) = int (n * 2 ^ j)"
    by (simp only: round_half_even_of_int)
  then show ?thesis by (simp add: round_pos_def) (simp add: q')
qed

lemma round_double_zero: "round_double 0 = Fin 0"
  by (simp add: round_double_def)

lemma round_double_nonneg:
  assumes "0 \<le> x"
  shows "round_double x
           = (if 2 powi 1024 \<le> round_pos x then Infinite True else Fin (round_pos x))"
proof (cases "x = 0")
  case True
  have "(0::rat) < 2 powi 1024" by (rule zero_less_power_int) simp
  with True show ?thesis by (simp add: round_double_def round_pos_zero not_le)
next
  case False
  with assms have "0 < x" by simp
  then show ?thesis by (simp add: round_double_def Let_def)
qed

lemma round_double_small:
  assumes "0 \<le> x" "x \<le> of_nat n" "n < 2 ^ 53"
  shows "round_double x = Fin (round_pos x)" and "round_pos x \<le> of_nat n"
proof -
  have "round_pos x \<le> round_pos (of_nat n)" using assms(1,2) by (rule round_pos_mono)
  then show le: "round_pos x \<le> of_nat n" by (simp add: round_pos_of_nat [OF assms(3)])
  from assms(3) have "rat_of_nat n < of_nat (2 ^ 53)" by (simp only: of_nat_less_iff)
  then have "rat_of_nat n < 2 powi 53" by simp
  also have "(2::rat) powi 53 \<le> 2 powi 1024" by (rule power_int_increasing) simp_all
  finally have "round_pos x < 2 powi 1024" using le by simp
  then show "round_double x = Fin (round_pos x)"
    by (simp add: round_double_nonneg [OF assms(1)] not_le)
qed

lemma round_double_of_nat: "n < 2 ^ 53 \<Longrightarrow> round_double (of_nat n) = Fin (of_nat n)"
  using round_double_small(1) [of "of_nat n" n] by (simp add: round_pos_of_nat)

lemma round_double_numeral:
  "numeral k < (2::nat) ^ 53 \<Longrightarrow> round_double (numeral k) = Fin (numeral k)"
  using round_double_of_nat [of "numeral k"] by simp

lemma round_double_eval:
  assumes "2 powi e \<le> x" "x < 2 powi (e + 1)" "- 1022 \<le> e" "e < 1023"
  shows "round_double x
           = Fin (of_int (round_half_even (x * 2 powi (52 - e))) * 2 powi (e - 52))"
proof -
  have "(0::rat) < 2 powi e" by (simp add: zero_less_power_int)
  from this assms(1) have x: "0 < x" by (rule less_le_trans)
  from assms(3) have "max (exponent x) (- 1022) = e"
    by (simp add: exponent_unique [OF assms(1,2)] max_def)
  with round_pos_bounds(2) [OF x] have "round_pos x \<le> 2 powi (e + 1)" by simp
  also have "(2::rat) powi (e + 1) < 2 powi 1024"
    using assms(4) by (intro power_int_strict_increasing) simp_all
  finally have "round_pos x < 2 powi 1024" .
  with x have "round_double x = Fin (round_pos x)"
    by (simp add: round_double_nonneg not_le)
  then show ?thesis by (simp only: round_pos_eval [OF assms(1-3)])
qed

text \<open>The rules that evaluate a rounding of numerals.\<close>

lemma floor_rat_numeral: "\<lfloor>(numeral a :: rat) / numeral b\<rfloor> = numeral a div numeral b"
  using floor_divide_of_int_eq [of "numeral a" "numeral b", where ?'a = rat] by simp

lemmas round_eval = round_half_even_def Let_def power_int_minus floor_rat_numeral

subsection \<open>The percentage in closed form\<close>

text \<open>
  For an elapsed time that is not negative and a duration above zero the quotient is
  rounded, cut at one, multiplied by 100 and rounded again; no step overflows.
\<close>

lemma min_one_round_double:
  assumes "0 \<le> x"
  shows "min_one (round_double x) = Fin (min (round_pos x) 1)"
proof (cases "2 powi 1024 \<le> round_pos x")
  case True
  have "(2::rat) powi 0 < 2 powi 1024" by (rule power_int_strict_increasing) simp_all
  with True have "1 < round_pos x" by simp
  with True show ?thesis by (simp add: round_double_nonneg [OF assms])
next
  case False
  then show ?thesis by (simp add: round_double_nonneg [OF assms] min_def)
qed

lemma percentage_nonneg:
  assumes "0 < duration" "0 \<le> elapsed"
  shows "progress_percentage (Fin elapsed) (Fin duration)
           = Inr \<lceil>round_pos (min (round_pos (elapsed / duration)) 1 * 100)\<rceil>"
proof -
  define m where "m = min (round_pos (elapsed / duration)) 1"
  from assms have x: "0 \<le> elapsed / duration" by simp
  from round_pos_nonneg [OF x] have m: "0 \<le> m * 100" "m * 100 \<le> of_nat 100"
    by (simp_all add: m_def)
  have "fmul (Fin m) (Fin 100) = Fin (round_pos (m * 100))"
    using round_double_small(1) [OF m] by simp
  with assms(1) show ?thesis
    by (simp add: progress_percentage_def min_one_round_double [OF x] m_def)
qed

lemma percentage_bounds:
  assumes "0 \<le> x"
  shows "0 \<le> \<lceil>round_pos (min (round_pos x) 1 * 100)\<rceil>"
    and "\<lceil>round_pos (min (round_pos x) 1 * 100)\<rceil> \<le> 100"
    and "1 \<le> x \<Longrightarrow> \<lceil>round_pos (min (round_pos x) 1 * 100)\<rceil> = 100"
proof -
  define m where "m = min (round_pos x) 1"
  from round_pos_nonneg [OF assms] have m: "0 \<le> m * 100" "m * 100 \<le> of_nat 100"
    by (simp_all add: m_def)
  from round_pos_nonneg [OF m(1)] show "0 \<le> \<lceil>round_pos (min (round_pos x) 1 * 100)\<rceil>"
    by (simp add: m_def)
  from round_double_small(2) [OF m] have "round_pos (m * 100) \<le> 100" by simp
  then show "\<lceil>round_pos (min (round_pos x) 1 * 100)\<rceil> \<le> 100"
    by (simp add: m_def ceiling_le_iff)
  show "\<lceil>round_pos (min (round_pos x) 1 * 100)\<rceil> = 100" if "1 \<le> x"
  proof -
    have one: "round_pos 1 = 1" using round_pos_of_nat [of 1] by simp
    have hundred: "round_pos 100 = 100" using round_pos_of_nat [of 100] by simp
    have "round_pos 1 \<le> round_pos x" using that by (intro round_pos_mono) simp_all
    then have "1 \<le> round_pos x" by (simp only: one)
    then have "m * 100 = 100" by (simp add: m_def)
    then have "round_pos (m * 100) = 100" by (simp only: hundred)
    then show ?thesis by (simp add: m_def)
  qed
qed

text \<open>The percentage grows with the elapsed time, for a duration above zero.\<close>

lemma percentage_mono:
  assumes "0 < duration" "0 \<le> e1" "e1 \<le> e2"
  shows "\<exists>p1 p2. progress_percentage (Fin e1) (Fin duration) = Inr p1
           \<and> progress_percentage (Fin e2) (Fin duration) = Inr p2 \<and> p1 \<le> p2"
proof -
  from assms have e2: "0 \<le> e2" by simp
  from assms have x: "0 \<le> e1 / duration" "e1 / duration \<le> e2 / duration"
    by (simp_all add: divide_right_mono)
  from x have "round_pos (e1 / duration) \<le> round_pos (e2 / duration)" by (rule round_pos_mono)
  then have le: "min (round_pos (e1 / duration)) 1 * 100 \<le> min (round_pos (e2 / duration)) 1 * 100"
    by (simp add: min_def)
  from round_pos_nonneg [OF x(1)] have "0 \<le> min (round_pos (e1 / duration)) 1 * 100"
    by simp
  from this le
  have "round_pos (min (round_pos (e1 / duration)) 1 * 100)
          \<le> round_pos (min (round_pos (e2 / duration)) 1 * 100)"
    by (rule round_pos_mono)
  then have "\<lceil>round_pos (min (round_pos (e1 / duration)) 1 * 100)\<rceil>
               \<le> \<lceil>round_pos (min (round_pos (e2 / duration)) 1 * 100)\<rceil>"
    by (rule ceiling_mono)
  with percentage_nonneg [OF assms(1,2)] percentage_nonneg [OF assms(1) e2]
  show ?thesis by simp
qed

subsection \<open>The parsed elapsed time\<close>

text \<open>
  The pattern admits no sign: each of the three pieces of a match starts with a digit,
  so that \<^verbatim>\<open>float\<close> gives a number that is not negative, or an infinity for a long run
  of digits, and so does the sum. An elapsed time that \<open>parse_line\<close> returns is never
  negative and never NaN.
\<close>

lemma round_double_not_negative: "0 \<le> x \<Longrightarrow> not_negative (round_double x)"
  by (simp add: round_double_nonneg round_pos_nonneg)

lemma fmul_not_negative:
  "not_negative a \<Longrightarrow> 0 < k \<Longrightarrow> not_negative (fmul a (Fin k))"
  by (cases a) (simp_all add: round_double_not_negative)

lemma fadd_not_negative:
  "not_negative a \<Longrightarrow> not_negative b \<Longrightarrow> not_negative (fadd a b)"
  by (cases a; cases b) (simp_all add: round_double_not_negative)

lemma digit_cases:
  "is_digit c \<Longrightarrow>
     c = CHR ''0'' \<or> c = CHR ''1'' \<or> c = CHR ''2'' \<or> c = CHR ''3'' \<or> c = CHR ''4''
     \<or> c = CHR ''5'' \<or> c = CHR ''6'' \<or> c = CHR ''7'' \<or> c = CHR ''8'' \<or> c = CHR ''9''"
  by (simp add: is_digit_def)

lemma lower_digits:
  "lower CHR ''0'' = CHR ''0''" "lower CHR ''1'' = CHR ''1''" "lower CHR ''2'' = CHR ''2''"
  "lower CHR ''3'' = CHR ''3''" "lower CHR ''4'' = CHR ''4''" "lower CHR ''5'' = CHR ''5''"
  "lower CHR ''6'' = CHR ''6''" "lower CHR ''7'' = CHR ''7''" "lower CHR ''8'' = CHR ''8''"
  "lower CHR ''9'' = CHR ''9''"
  by (simp_all add: lower_def)

lemma digit_facts:
  assumes "is_digit c"
  shows "c \<noteq> CHR '':''" "c \<noteq> CHR ''_''" "c \<noteq> CHR ''-''" "c \<noteq> CHR ''+''"
    "\<not> is_float_space c" "lower c \<noteq> CHR ''i''" "lower c \<noteq> CHR ''n''"
  using digit_cases [OF assms]
  by (elim disjE; simp add: is_float_space_def lower_digits)+

lemma split_colon_nonempty: "split_colon t \<noteq> []"
  by (induction t) (auto split: list.splits)

lemma split_colon_digits:
  "list_all is_digit h \<Longrightarrow> split_colon (h @ CHR '':'' # rest) = h # split_colon rest"
proof (induction h)
  case Nil
  show ?case by simp
next
  case (Cons c h)
  then show ?case using digit_facts(1) [of c] by simp
qed

lemma split_colon_head:
  "c \<noteq> CHR '':'' \<Longrightarrow> \<exists>p ps. split_colon (c # cs) = (c # p) # ps"
  using split_colon_nonempty [of cs] by (cases "split_colon cs") simp_all

lemma float_strip_head:
  assumes "\<not> is_float_space c"
  shows "\<exists>w. float_strip (c # t) = c # w"
proof -
  have "float_strip (c # t)
          = c # (if \<forall>x\<in>set t. is_float_space x then []
                 else rev (dropWhile is_float_space (rev t)))"
    using assms by (simp add: float_strip_def dropWhile_append)
  then show ?thesis ..
qed

lemma parse_exponent_pos: "parse_exponent t = Some ex \<Longrightarrow> 0 < ex"
  by (auto simp: parse_exponent_def pow10_def split: list.splits if_splits prod.splits)

lemma parse_decimal_unsigned:
  assumes "is_digit c" "parse_decimal (c # w) = Some q"
  shows "0 \<le> q"
proof -
  from digit_facts(3,4) [OF assms(1)] have s: "split_sign (c # w) = (False, c # w)"
    by (simp add: split_sign_def)
  from assms(2) show ?thesis
    by (auto simp: parse_decimal_def s Let_def dest!: parse_exponent_pos
             split: option.splits if_splits)
qed

lemma parse_inf_or_nan_digit:
  assumes "is_digit c"
  shows "parse_inf_or_nan (c # w) = None"
proof -
  from digit_facts(3,4) [OF assms(1)] have s: "split_sign (c # w) = (False, c # w)"
    by (simp add: split_sign_def)
  from digit_facts(6,7) [OF assms] show ?thesis
    by (simp add: parse_inf_or_nan_def s Let_def)
qed

lemma py_float_digit_head:
  assumes "is_digit c" "py_float (c # t) = Some v"
  shows "not_negative v"
proof -
  from digit_facts(2) [OF assms(1)]
  have f: "filter (\<lambda>x. x \<noteq> CHR ''_'') (c # t) = c # filter (\<lambda>x. x \<noteq> CHR ''_'') t"
    by simp
  from float_strip_head [OF digit_facts(5) [OF assms(1)]]
  obtain w where w: "float_strip (c # filter (\<lambda>x. x \<noteq> CHR ''_'') t) = c # w" by blast
  from assms(2) obtain u where u: "float_literal (c # t) = Some u" and v: "v = round_float u"
    by (auto simp: py_float_def)
  from u obtain q where "parse_decimal (c # w) = Some q" and "u = Fin q"
    using digit_facts(2) [OF assms(1)]
    by (auto simp: float_literal_def Let_def f w parse_inf_or_nan_digit [OF assms(1)]
             simp del: filter.simps split: if_splits option.splits)
  with parse_decimal_unsigned [OF assms(1)] v show ?thesis
    by (simp add: round_double_not_negative)
qed

lemma match_field_digits:
  "match_field t = Some (ds, rest) \<Longrightarrow> ds \<noteq> [] \<and> list_all is_digit ds"
  by (auto simp: match_field_def Let_def list_all_iff split: if_splits list.splits
           dest: set_takeWhileD)

lemma match_seconds_head:
  "match_seconds t = Some sec \<Longrightarrow> \<exists>c cs. sec = c # cs \<and> is_digit c"
proof -
  assume a: "match_seconds t = Some sec"
  define sd where "sd = takeWhile is_digit t"
  from a have "sd \<noteq> []" by (auto simp: match_seconds_def Let_def sd_def split: if_splits)
  then obtain c cs where sd: "sd = c # cs" by (cases sd) simp_all
  then have "c \<in> set (takeWhile is_digit t)" by (simp add: sd_def [symmetric])
  then have c: "is_digit c" by (rule set_takeWhileD [THEN conjunct2])
  from a sd show ?thesis
    using c by (auto simp: match_seconds_def Let_def sd_def [symmetric] split: if_splits list.splits)
qed

lemma match_here_shape:
  assumes "match_here t = Some g"
  shows "\<exists>h m c cs. g = h @ CHR '':'' # m @ CHR '':'' # c # cs
           \<and> h \<noteq> [] \<and> list_all is_digit h \<and> m \<noteq> [] \<and> list_all is_digit m \<and> is_digit c"
  using assms
  by (auto simp: match_here_def split: option.splits prod.splits
           dest!: match_field_digits match_seconds_head)

lemma re_search_shape:
  "re_search t = Some g \<Longrightarrow>
     \<exists>h m c cs. g = h @ CHR '':'' # m @ CHR '':'' # c # cs
        \<and> h \<noteq> [] \<and> list_all is_digit h \<and> m \<noteq> [] \<and> list_all is_digit m \<and> is_digit c"
proof (induction t)
  case Nil
  then have "match_here [] = Some g" by simp
  then show ?case by (rule match_here_shape)
next
  case (Cons a t)
  show ?case
  proof (cases "match_here (a # t)")
    case None
    with Cons.prems have "re_search t = Some g" by simp
    then show ?thesis by (rule Cons.IH)
  next
    case (Some g')
    with Cons.prems have "match_here (a # t) = Some g" by simp
    then show ?thesis by (rule match_here_shape)
  qed
qed

lemma parsed_time_not_negative:
  assumes "parse_line line = Inr (Some t)"
  shows "not_negative t"
proof -
  from assms obtain g where g: "re_search line = Some g"
    by (auto simp: parse_line_def split: option.splits)
  from re_search_shape [OF g] obtain h m c cs
    where shape: "g = h @ CHR '':'' # m @ CHR '':'' # c # cs"
      and h: "h \<noteq> []" "list_all is_digit h" and m: "m \<noteq> []" "list_all is_digit m"
      and c: "is_digit c"
    by blast
  from split_colon_head [OF digit_facts(1) [OF c]] obtain p ps
    where sec: "split_colon (c # cs) = (c # p) # ps" by blast
  have sp: "split_colon g = h # m # (c # p) # ps"
    by (simp add: shape split_colon_digits h m sec del: split_colon.simps)
  from assms g sp obtain a b s
    where fl: "py_float h = Some a" "py_float m = Some b" "py_float (c # p) = Some s"
      and t: "t = fadd (fadd (fmul a (Fin 3600)) (fmul b (Fin 60))) s"
    by (auto simp: parse_line_def split: option.splits list.splits)
  from h obtain hc ht where hh: "h = hc # ht" "is_digit hc" by (cases h) simp_all
  from m obtain mc mt where mm: "m = mc # mt" "is_digit mc" by (cases m) simp_all
  from fl(1) hh have "not_negative a" by (auto intro: py_float_digit_head)
  moreover from fl(2) mm have "not_negative b" by (auto intro: py_float_digit_head)
  moreover from fl(3) c have "not_negative s" by (auto intro: py_float_digit_head)
  ultimately show ?thesis by (simp add: t fadd_not_negative fmul_not_negative)
qed

lemma percentage_of_infinity:
  "0 < duration \<Longrightarrow> progress_percentage (Infinite True) (Fin duration) = Inr 100"
  by (simp add: progress_percentage_def round_double_numeral)

lemma parsed_percentage_in_range:
  assumes "parse_line line = Inr (Some t)" "0 < duration"
  shows "\<exists>p. progress_percentage t (Fin duration) = Inr p \<and> 0 \<le> p \<and> p \<le> 100"
proof (cases t)
  case (Fin x)
  with parsed_time_not_negative [OF assms(1)] have x: "0 \<le> x" by simp
  with assms(2) have "0 \<le> x / duration" by simp
  from percentage_bounds(1,2) [OF this] percentage_nonneg [OF assms(2) x] Fin
  show ?thesis by simp
next
  case (Infinite b)
  with parsed_time_not_negative [OF assms(1)] have "b" by simp
  with Infinite percentage_of_infinity [OF assms(2)] show ?thesis by simp
next
  case NaN
  with parsed_time_not_negative [OF assms(1)] show ?thesis by simp
qed

subsection \<open>The worked example\<close>

lemma percentage_steps:
  assumes "0 < duration" "0 \<le> elapsed"
    and "round_pos (elapsed / duration) = q" and "round_pos (min q 1 * 100) = r"
    and "\<lceil>r\<rceil> = p"
  shows "progress_percentage (Fin elapsed) (Fin duration) = Inr p"
  using assms by (simp add: percentage_nonneg)

lemma demo_percentages:
  "progress_percentage (Fin 10) (Fin 100) = Inr 10"
  "progress_percentage (Fin 5) (Fin 100) = Inr 5"
  "progress_percentage (Fin 20) (Fin 100) = Inr 20"
proof -
  show "progress_percentage (Fin 10) (Fin 100) = Inr 10"
  proof (rule percentage_steps [where q = "3602879701896397 / 36028797018963968" and r = 10])
    show "round_pos (10 / 100) = 3602879701896397 / 36028797018963968"
      by (subst round_pos_eval [of "- 4"]) (simp_all add: round_eval)
    show "round_pos (min (3602879701896397 / 36028797018963968) 1 * 100) = 10"
      by (subst round_pos_eval [of 3]) (simp_all add: round_eval)
  qed simp_all
  show "progress_percentage (Fin 5) (Fin 100) = Inr 5"
  proof (rule percentage_steps [where q = "3602879701896397 / 72057594037927936" and r = 5])
    show "round_pos (5 / 100) = 3602879701896397 / 72057594037927936"
      by (subst round_pos_eval [of "- 5"]) (simp_all add: round_eval)
    show "round_pos (min (3602879701896397 / 72057594037927936) 1 * 100) = 5"
      by (subst round_pos_eval [of 2]) (simp_all add: round_eval)
  qed simp_all
  show "progress_percentage (Fin 20) (Fin 100) = Inr 20"
  proof (rule percentage_steps [where q = "3602879701896397 / 18014398509481984" and r = 20])
    show "round_pos (20 / 100) = 3602879701896397 / 18014398509481984"
      by (subst round_pos_eval [of "- 3"]) (simp_all add: round_eval)
    show "round_pos (min (3602879701896397 / 18014398509481984) 1 * 100) = 20"
      by (subst round_pos_eval [of 4]) (simp_all add: round_eval)
  qed simp_all
qed

text \<open>
  The rounding shows in the percentage: 7 seconds over 100 seconds give 8, since
  \<^verbatim>\<open>7.0 / 100.0 * 100\<close> is the double just above 7.
\<close>

lemma seven_seconds_give_eight: "progress_percentage (Fin 7) (Fin 100) = Inr 8"
proof (rule percentage_steps [where q = "1261007895663739 / 18014398509481984"
                                and r = "7881299347898369 / 1125899906842624"])
  show "round_pos (7 / 100) = 1261007895663739 / 18014398509481984"
    by (subst round_pos_eval [of "- 4"]) (simp_all add: round_eval)
  show "round_pos (min (1261007895663739 / 18014398509481984) 1 * 100)
          = 7881299347898369 / 1125899906842624"
    by (subst round_pos_eval [of 2]) (simp_all add: round_eval)
  show "\<lceil>7881299347898369 / 1125899906842624 :: rat\<rceil> = 8"
    by (rule ceiling_unique) simp_all
qed simp_all

lemma round_double_one: "round_double 1 = Fin 1"
  using round_double_of_nat [of 1] by simp

lemma search_demo_lines:
  "re_search ''frame=240 time=00:00:10.00\<newline>'' = Some ''00:00:10.00''"
  "re_search ''frame=120 time=00:00:05.00\<newline>'' = Some ''00:00:05.00''"
  "re_search ''frame=480 time=00:00:20.00\<newline>'' = Some ''00:00:20.00''"
  "re_search ''time=01:02:03.50'' = Some ''01:02:03.50''"
  "re_search ''time=1:2:345'' = Some ''1:2:345''"
  by code_simp+

lemma split_demo_stamps:
  "split_colon ''00:00:10.00'' = [''00'', ''00'', ''10.00'']"
  "split_colon ''00:00:05.00'' = [''00'', ''00'', ''05.00'']"
  "split_colon ''00:00:20.00'' = [''00'', ''00'', ''20.00'']"
  "split_colon ''01:02:03.50'' = [''01'', ''02'', ''03.50'']"
  "split_colon ''1:2:345'' = [''1'', ''2'', ''345'']"
  by code_simp+

lemma float_literal_demo:
  "float_literal ''00'' = Some (Fin 0)"
  "float_literal ''10.00'' = Some (Fin 10)"
  "float_literal ''05.00'' = Some (Fin 5)"
  "float_literal ''20.00'' = Some (Fin 20)"
  "float_literal ''01'' = Some (Fin 1)"
  "float_literal ''02'' = Some (Fin 2)"
  "float_literal ''03.50'' = Some (Fin (7 / 2))"
  "float_literal ''1'' = Some (Fin 1)"
  "float_literal ''2'' = Some (Fin 2)"
  "float_literal ''345'' = Some (Fin 345)"
  by code_simp+

lemma round_demo_halves:
  "round_double (7 / 2) = Fin (7 / 2)"
  "round_double (7447 / 2) = Fin (7447 / 2)"
proof -
  show "round_double (7 / 2) = Fin (7 / 2)"
    by (subst round_double_eval [of 1]) (simp_all add: round_eval)
  show "round_double (7447 / 2) = Fin (7447 / 2)"
    by (subst round_double_eval [of 11]) (simp_all add: round_eval)
qed

lemmas demo_floats =
  py_float_def float_literal_demo round_double_zero round_double_one round_double_numeral
  round_demo_halves

lemma parse_demo_lines:
  "parse_line ''frame=240 time=00:00:10.00\<newline>'' = Inr (Some (Fin 10))"
  "parse_line ''frame=120 time=00:00:05.00\<newline>'' = Inr (Some (Fin 5))"
  "parse_line ''frame=480 time=00:00:20.00\<newline>'' = Inr (Some (Fin 20))"
  by (simp_all add: parse_line_def search_demo_lines split_demo_stamps demo_floats
        del: re_search.simps split_colon.simps)

lemma read_demo_lines:
  "read_lines (Fin 100) demo_lines (Some new_bar)
     = (None, Some \<lparr>tqdm_n = 20, tqdm_total = 100, tqdm_closed = False\<rparr>,
        [Update 10, Update (- 5), Update 15])"
  by (simp add: demo_lines_def parse_demo_lines demo_percentages new_bar_def tqdm_update_def)

lemma probe_command_inj: "(probe_command a = probe_command b) = (a = b)"
  by (simp add: probe_command_def)

lemma float_literal_demo_output:
  "float_literal (strip ''100.000000\<newline>'') = Some (Fin 100)"
  "float_literal (strip ''N/A\<newline>'') = None"
  by code_simp+

lemma float_of_demo_output:
  "py_float (strip ''100.000000\<newline>'') = Some (Fin 100)"
  "py_float (strip ''N/A\<newline>'') = None"
  by (simp_all add: py_float_def float_literal_demo_output round_double_numeral)

lemma demo_duration: "get_duration demo_env ''in/a.mp4'' = Inr (Fin 100)"
  by (simp add: get_duration_def demo_env_def float_of_demo_output)

lemma demo_duration_b: "get_duration demo_env ''in/b.mp4'' = Inl ValueError"
  by (simp add: get_duration_def demo_env_def probe_command_inj float_of_demo_output)

lemma demo_command:
  "build_command ''ffpe'' ''in/a.mp4'' ''out/a.mp4'' no_options
     = [''ffpe'', ''-hide_banner'', ''-i'', ''in/a.mp4'', ''-y'', ''out/a.mp4'']"
  by (simp add: build_command_concat no_options_def text_pair_def value_pair_def)

lemma documented_example_parses:
  "parse_line ''time=01:02:03.50'' = Inr (Some (Fin (7447 / 2)))"
  by (simp add: parse_line_def search_demo_lines split_demo_stamps demo_floats
        del: re_search.simps split_colon.simps)

lemma three_digit_seconds_parse:
  "parse_line ''time=1:2:345'' = Inr (Some (Fin 4065))"
  by (simp add: parse_line_def search_demo_lines split_demo_stamps demo_floats
        del: re_search.simps split_colon.simps)

subsection \<open>The progress parser\<close>

text \<open>
  Claim C2. The parser is to return the elapsed seconds exactly for the lines that hold
  a \<^verbatim>\<open>time=HH:MM:SS.ss\<close> stamp and to pass over every other line without an error. The
  stamp of the documented example gives 3723.5 seconds (\<open>documented_example_parses\<close>),
  and a line on which the pattern finds nothing is passed over. The dot of the pattern
  is not escaped, though: the line below has no such stamp, the pattern matches
  \<^verbatim>\<open>00:00:03x50\<close> on it, and \<^verbatim>\<open>float("03x50")\<close> raises \<^verbatim>\<open>ValueError\<close>, which ends the
  loop of the worker.
\<close>

theorem malformed_seconds_raise:
  "parse_line ''frame=72 time=00:00:03x50 bitrate=900k'' = Inl ValueError"
  by code_simp

subsection \<open>The percentage\<close>



subsection \<open>The reported sequence\<close>

text \<open>
  Claim C1, as stated: the worker keeps the maximum of the new percentage and the last
  one reported, so that elapsed times of 10, 5 and 20 seconds over a duration of 100
  seconds are reported as 10, 10 and 20. The worker has no such maximum: line 488 calls
  \<^verbatim>\<open>update(progress_percentage - progress_bar.n)\<close>, which moves the counter to the new
  percentage also when it is lower. On the three lines of \<open>demo_lines\<close>, which carry the
  elapsed times 10, 5 and 20, the counter reads 10, then 5, then 20.
\<close>

theorem regression_is_reported:
  "reported 0 (snd (snd (read_lines (Fin 100) demo_lines (Some new_bar)))) = [10, 5, 20]"
  by (simp add: read_demo_lines)

text \<open>
  Claim C1, amended: after each line that carries an elapsed time the counter of the
  progress bar is the percentage of that line alone, whatever it was before. The
  reported sequence is therefore the sequence of the percentages of the lines: it is
  non-decreasing exactly when those are, which \<open>percentage_mono\<close> gives for elapsed
  times that do not decrease.
\<close>

theorem reports_follow_lines:
  "reported (tqdm_n bar) (snd (snd (read_lines duration lines (Some bar))))
     = line_percents duration lines"
proof (induction lines arbitrary: bar)
  case Nil
  show ?case by simp
next
  case (Cons l rest)
  show ?case
  proof (cases l)
    case (Inl e)
    then show ?thesis by simp
  next
    case (Inr line)
    show ?thesis
    proof (cases "parse_line line")
      case (Inl e)
      with Inr show ?thesis by simp
    next
      case r: (Inr t)
      show ?thesis
      proof (cases t)
        case None
        with Inr r Cons.IH [of bar] show ?thesis by simp
      next
        case (Some elapsed_time)
        show ?thesis
        proof (cases "progress_percentage elapsed_time duration")
          case (Inl e)
          with Inr r Some show ?thesis by simp
        next
          case p: (Inr pct)
          have n: "tqdm_n (tqdm_update (pct - tqdm_n bar) bar) = pct"
            by (simp add: tqdm_update_def)
          from Cons.IH [of "tqdm_update (pct - tqdm_n bar) bar"] Inr r Some p n
          show ?thesis by (auto split: prod.splits)
        qed
      qed
    qed
  qed
qed

subsection \<open>The command line\<close>

text \<open>
  Claim C7, as stated: every option that is present adds its flag and value, and
  \<^verbatim>\<open>-y\<close> with the output path always ends the command. An option is tested with
  \<^verbatim>\<open>if\<close>, so a sample rate of 0 is present and adds nothing, and an empty output path
  drops \<^verbatim>\<open>-y\<close> as well.
\<close>

theorem zero_sample_rate_dropped:
  "build_command ''ffpe'' ''in.mp4'' ''out.mp4'' (no_options\<lparr>arg_ar := Some (PyInt 0)\<rparr>)
     = [''ffpe'', ''-hide_banner'', ''-i'', ''in.mp4'', ''-y'', ''out.mp4'']
   \<and> build_command ''ffpe'' ''in.mp4'' [] no_options
     = [''ffpe'', ''-hide_banner'', ''-i'', ''in.mp4'']"
  by (simp add: build_command_concat no_options_def text_pair_def value_pair_def)

text \<open>
  Claim C7, amended. The command line is the executable, \<^verbatim>\<open>-hide_banner\<close>, the
  accelerator pair, \<^verbatim>\<open>-i\<close> and the input path, then one pair for each of video codec,
  audio codec, size (with every multiplication sign replaced by \<^verbatim>\<open>x\<close>), sample rate,
  channels, audio bit rate, frame rate, format, preset and video bit rate, in this
  order, then \<^verbatim>\<open>-y\<close> and the output path. A pair is there when the value of its option
  is true for \<^verbatim>\<open>if\<close> (not \<^verbatim>\<open>None\<close>, not 0, not empty) and absent otherwise, and
  \<^verbatim>\<open>-y\<close> with the output path is there when the output path is not empty.
\<close>

theorem command_line_layout:
  "build_command ffpe_path input_file output_file opts =
     [ffpe_path, ''-hide_banner'']
     @ text_pair ''-hwaccel'' (arg_hwaccel opts)
     @ [''-i'', input_file]
     @ text_pair ''-c:v'' (arg_cv opts)
     @ text_pair ''-c:a'' (arg_ca opts)
     @ text_pair ''-s'' (map_option replace_times (arg_s opts))
     @ value_pair ''-ar'' (arg_ar opts)
     @ value_pair ''-ac'' (arg_ac opts)
     @ value_pair ''-b:a'' (arg_ba opts)
     @ value_pair ''-r'' (arg_r opts)
     @ text_pair ''-f'' (arg_f opts)
     @ text_pair ''-preset'' (arg_preset opts)
     @ value_pair ''-b:v'' (arg_bv opts)
     @ (if output_file = [] then [] else [''-y'', output_file])"
  by (rule build_command_concat)

text \<open>
  Claim C10. An option whose value is false for \<^verbatim>\<open>if\<close> (0 or the empty string) gives
  the same command line as the option left at \<^verbatim>\<open>None\<close>.
\<close>

theorem falsy_option_omitted:
  assumes "\<not> truthy v"
  shows "build_command p i out (opts\<lparr>arg_ar := Some v\<rparr>) = build_command p i out (opts\<lparr>arg_ar := None\<rparr>)
       \<and> build_command p i out (opts\<lparr>arg_ac := Some v\<rparr>) = build_command p i out (opts\<lparr>arg_ac := None\<rparr>)
       \<and> build_command p i out (opts\<lparr>arg_ba := Some v\<rparr>) = build_command p i out (opts\<lparr>arg_ba := None\<rparr>)
       \<and> build_command p i out (opts\<lparr>arg_r := Some v\<rparr>) = build_command p i out (opts\<lparr>arg_r := None\<rparr>)
       \<and> build_command p i out (opts\<lparr>arg_bv := Some v\<rparr>) = build_command p i out (opts\<lparr>arg_bv := None\<rparr>)
       \<and> build_command p i out (opts\<lparr>arg_cv := Some []\<rparr>) = build_command p i out (opts\<lparr>arg_cv := None\<rparr>)
       \<and> build_command p i out (opts\<lparr>arg_ca := Some []\<rparr>) = build_command p i out (opts\<lparr>arg_ca := None\<rparr>)
       \<and> build_command p i out (opts\<lparr>arg_s := Some []\<rparr>) = build_command p i out (opts\<lparr>arg_s := None\<rparr>)
       \<and> build_command p i out (opts\<lparr>arg_f := Some []\<rparr>) = build_command p i out (opts\<lparr>arg_f := None\<rparr>)
       \<and> build_command p i out (opts\<lparr>arg_preset := Some []\<rparr>) = build_command p i out (opts\<lparr>arg_preset := None\<rparr>)
       \<and> build_command p i out (opts\<lparr>arg_hwaccel := Some []\<rparr>) = build_command p i out (opts\<lparr>arg_hwaccel := None\<rparr>)"
proof -
  have v: "value_pair flag (Some v) = value_pair flag None" for flag
    using assms by (rule value_pair_falsy)
  show ?thesis
    unfolding build_command_concat
    by (simp add: v text_pair_empty replace_times_def)
qed

theorem falsy_option_omitted_witness:
  "\<not> truthy (PyInt 0)
   \<and> build_command ''ffpe'' ''a.mp4'' ''b.mkv'' (no_options\<lparr>arg_ar := Some (PyInt 0)\<rparr>)
       = build_command ''ffpe'' ''a.mp4'' ''b.mkv'' (no_options\<lparr>arg_ar := None\<rparr>)"
  using falsy_option_omitted [of "PyInt 0" "''ffpe''" "''a.mp4''" "''b.mkv''" no_options]
  by simp

subsection \<open>The worker\<close>

text \<open>
  Claim C3. The outcome is to follow the exit status: success with the bar forced to 100
  for status 0, failure for any other status. The worker never reads the status. In the
  example the process exits with status 1 after three progress lines; the worker closes
  the bar with its counter at 20 and prints the completion line.
\<close>

theorem nonzero_exit_reported_completed:
  "popen demo_env (build_command ''ffpe'' ''in/a.mp4'' ''out/a.mp4'' no_options)
     = Inr \<lparr>stdout = demo_lines, returncode = 1\<rparr>
   \<and> convert_single demo_env ''ffpe'' ''in/a.mp4'' ''out/a.mp4'' no_options (Some new_bar)
     = (Some \<lparr>tqdm_n = 20, tqdm_total = 100, tqdm_closed = True\<rparr>,
        [CheckOutput (probe_command ''in/a.mp4''),
         Popen [''ffpe'', ''-hide_banner'', ''-i'', ''in/a.mp4'', ''-y'', ''out/a.mp4''],
         Update 10, Update (- 5), Update 15, Close, Print (Completed ''a.mp4'')])"
proof -
  have p: "popen demo_env c = Inr \<lparr>stdout = demo_lines, returncode = 1\<rparr>" for c
    by (simp add: demo_env_def)
  have b: "basename demo_env ''in/a.mp4'' = ''a.mp4''"
    by (simp add: demo_env_def posix_basename_def)
  show ?thesis
    by (simp add: convert_single_def demo_duration p read_demo_lines b demo_command
        tqdm_close_def)
qed

text \<open>
  Claim C8. When the duration probe fails, the worker runs the probe once, never calls
  \<^verbatim>\<open>Popen\<close>, prints the failure and leaves the progress bar as it was.
\<close>

theorem probe_failure_fails_job:
  assumes "get_duration E input_file = Inl e"
  shows "convert_single E ffpe_path input_file output_file opts progress_bar
           = (progress_bar, [CheckOutput (probe_command input_file), Print (handler e)])
         \<and> \<not> list_ex is_popen
               (snd (convert_single E ffpe_path input_file output_file opts progress_bar))
         \<and> \<not> list_ex is_completed
               (snd (convert_single E ffpe_path input_file output_file opts progress_bar))
         \<and> length (filter is_check_output
               (snd (convert_single E ffpe_path input_file output_file opts progress_bar))) = 1"
proof -
  have r: "convert_single E ffpe_path input_file output_file opts progress_bar
           = (progress_bar, [CheckOutput (probe_command input_file), Print (handler e)])"
    using assms by (simp add: convert_single_def)
  have "\<not> is_completed (Print (handler e))" by (cases e) simp_all
  then show ?thesis unfolding r by simp
qed

theorem probe_failure_fails_job_witness:
  "get_duration demo_env ''in/b.mp4'' = Inl ValueError
   \<and> convert_single demo_env ''ffpe'' ''in/b.mp4'' ''out/b.mp4'' no_options (Some new_bar)
       = (Some new_bar, [CheckOutput (probe_command ''in/b.mp4''), Print (ErrorOccurred ValueError)])"
  using probe_failure_fails_job [OF demo_duration_b, of "''ffpe''" "''out/b.mp4''" no_options "Some new_bar"]
    demo_duration_b
  by simp

subsection \<open>The batch\<close>

text \<open>
  Claim C4. When there is no input file, or some input file does not exist, the batch
  starts no thread, joins none, and no worker runs.
\<close>

theorem invalid_batch_starts_nothing:
  assumes "files_of input_files = [] \<or> (\<exists>f \<in> set (files_of input_files). \<not> path_exists E f)"
  shows "threads (convert E input_files output_dir opts) = []
         \<and> joined (convert E input_files output_dir opts) = []
         \<and> workers E ffpe_path input_files output_dir opts = []"
proof -
  have "\<exists>e. convert E input_files output_dir opts = rejected e"
  proof (cases "files_truthy input_files")
    case False
    then have "convert E input_files output_dir opts = rejected NoInputFiles"
      by (simp add: convert_def)
    then show ?thesis ..
  next
    case True
    then have "files_of input_files \<noteq> []" by (rule files_truthy_iff)
    with assms obtain f where f: "f \<in> set (files_of input_files)" "\<not> path_exists E f"
      by blast
    then have "find (\<lambda>input_file. \<not> path_exists E input_file) (files_of input_files) \<noteq> None"
      by (auto simp: find_None_iff)
    then show ?thesis
      by (auto simp: convert_def split: option.splits)
  qed
  then obtain e where "convert E input_files output_dir opts = rejected e" ..
  then show ?thesis by (simp add: workers_def rejected_fields)
qed

theorem invalid_batch_starts_nothing_witness:
  "(\<exists>f \<in> set (files_of (FileList [''in/a.mp4'', ''in/missing.mp4''])). \<not> path_exists demo_env f)
   \<and> threads (convert demo_env (FileList [''in/a.mp4'', ''in/missing.mp4'']) (Some ''out'') no_options) = []
   \<and> workers demo_env ''ffpe'' (FileList [''in/a.mp4'', ''in/missing.mp4'']) (Some ''out'') no_options = []"
proof -
  have h: "\<exists>f \<in> set (files_of (FileList [''in/a.mp4'', ''in/missing.mp4''])). \<not> path_exists demo_env f"
    by (simp add: demo_env_def)
  from invalid_batch_starts_nothing [OF disjI2, OF h] h show ?thesis by blast
qed

text \<open>
  Claim C5, as stated: the call returns the outcomes of the jobs in the order of
  submission. The call returns \<^verbatim>\<open>None\<close>: with three valid input files three threads are
  started and nothing is handed back.
\<close>

theorem convert_returns_None:
  "length (threads (convert demo_env (FileList [''in/a.mp4'', ''in/b.mp4'', ''in/c.mp4''])
                      (Some ''out'') no_options)) = 3
   \<and> returned (convert demo_env (FileList [''in/a.mp4'', ''in/b.mp4'', ''in/c.mp4''])
                      (Some ''out'') no_options) = None"
  by (simp add: convert_def demo_env_def)

text \<open>
  Claim C5, amended. For a batch of N existing input files and a non-empty output
  directory, one thread per file is started in the order of submission, numbered from
  1 to N, each with the output path derived from its own input file; every started
  thread is joined, in the same order; and the call returns \<^verbatim>\<open>None\<close>.
\<close>

theorem valid_batch_starts_all:
  assumes "fs \<noteq> []" and "dir \<noteq> []" and "\<forall>f \<in> set fs. path_exists E f"
  shows "map th_input_file (threads (convert E (FileList fs) (Some dir) opts)) = fs
         \<and> map th_index (threads (convert E (FileList fs) (Some dir) opts)) = [1 ..< Suc (length fs)]
         \<and> map th_output_file (threads (convert E (FileList fs) (Some dir) opts))
             = map (\<lambda>f. output_path E dir f (arg_f opts)) fs
         \<and> joined (convert E (FileList fs) (Some dir) opts)
             = map th_index (threads (convert E (FileList fs) (Some dir) opts))
         \<and> returned (convert E (FileList fs) (Some dir) opts) = None"
proof -
  have nf: "find (\<lambda>input_file. \<not> path_exists E input_file) fs = None"
    using assms(3) by (simp add: find_None_iff)
  have c: "convert E (FileList fs) (Some dir) opts
           = \<lparr>logged = [], threads = map (start_thread E dir opts) (enumerate 1 fs),
              joined = map th_index (map (start_thread E dir opts) (enumerate 1 fs)),
              returned = None\<rparr>"
    using assms(1,2) nf by (simp add: convert_def Let_def)
  have i: "map th_input_file (map (start_thread E dir opts) xs) = map snd xs" for xs
    by (simp add: start_thread_def)
  have k: "map th_index (map (start_thread E dir opts) xs) = map fst xs" for xs
    by (simp add: start_thread_def)
  have out: "map th_output_file (map (start_thread E dir opts) xs)
             = map (\<lambda>f. output_path E dir f (arg_f opts)) (map snd xs)" for xs
    by (simp add: start_thread_def)
  show ?thesis
    unfolding c by (simp add: i k out del: map_map)
qed

theorem valid_batch_starts_all_witness:
  "[''in/a.mp4'', ''in/b.mp4''] \<noteq> [] \<and> ''out'' \<noteq> []
   \<and> path_exists demo_env ''in/a.mp4'' \<and> path_exists demo_env ''in/b.mp4''
   \<and> map th_input_file (threads (convert demo_env (FileList [''in/a.mp4'', ''in/b.mp4''])
                                    (Some ''out'') no_options)) = [''in/a.mp4'', ''in/b.mp4'']
   \<and> map th_index (threads (convert demo_env (FileList [''in/a.mp4'', ''in/b.mp4''])
                                    (Some ''out'') no_options)) = [1, 2]
   \<and> returned (convert demo_env (FileList [''in/a.mp4'', ''in/b.mp4''])
                                    (Some ''out'') no_options) = None"
proof -
  have h: "\<forall>f \<in> set [''in/a.mp4'', ''in/b.mp4'']. path_exists demo_env f"
    by (simp add: demo_env_def)
  have u: "[1 ..< Suc (length [''in/a.mp4'', ''in/b.mp4''])] = [1, 2]"
    by code_simp
  from valid_batch_starts_all [of "[''in/a.mp4'', ''in/b.mp4'']" "''out''" demo_env no_options] h u
  show ?thesis by simp
qed

text \<open>
  Claim C9. An absent format is to leave the output path alone. The format is formatted
  into the file name as it is, so without a format the output of \<^verbatim>\<open>in/a.mp4\<close> in
  \<^verbatim>\<open>out\<close> is \<^verbatim>\<open>out/a.None\<close>.
\<close>

theorem absent_format_names_output_None:
  "output_path demo_env ''out'' ''in/a.mp4'' None = ''out/a.None''
   \<and> map th_output_file (threads (convert demo_env (FileList [''in/a.mp4'']) (Some ''out'') no_options))
       = [''out/a.None'']"
  by (simp add: output_path_def convert_def demo_env_def posix_basename_def posix_splitext_def
      posix_join_def start_thread_def enumerate_eq_zip no_options_def)

end
